theory Spec2Isabelle
  imports Complex_Main
begin

section \<open>Timeline index: src/renderer/utils/timeUtils.ts\<close>

text \<open>
  JavaScript numbers are modelled as exact reals (no rounding, no NaN, no infinities).
  An optional field of an object is an \<open>option\<close>: \<open>None\<close> is \<open>undefined\<close>.
\<close>

record TrackItem =
  item_id :: string
  item_file :: string
  start_ms :: real
  duration_ms :: "real option"
  end_ms :: "real option"

text \<open>Truthiness of an optional number: \<open>undefined\<close> and \<open>0\<close> are falsy.\<close>

definition truthy :: "real option \<Rightarrow> bool" where
  "truthy v = (case v of None \<Rightarrow> False | Some x \<Rightarrow> x \<noteq> 0)"

text \<open>The expression \<^verbatim>\<open>a || b\<close> for an optional number \<open>a\<close>.\<close>

definition js_or :: "real option \<Rightarrow> real \<Rightarrow> real" where
  "js_or a b = (case a of None \<Rightarrow> b | Some x \<Rightarrow> if x = 0 then b else x)"

text \<open>\<^verbatim>\<open>item.end_ms || (item.start_ms + (item.duration_ms || 0))\<close>\<close>

definition effectiveEnd :: "TrackItem \<Rightarrow> real" where
  "effectiveEnd item = js_or (end_ms item) (start_ms item + js_or (duration_ms item) 0)"

text \<open>The test \<^verbatim>\<open>clampedTime >= startTime && clampedTime < endTime\<close>.\<close>

definition inRange :: "TrackItem \<Rightarrow> real \<Rightarrow> bool" where
  "inRange item t = (start_ms item \<le> t \<and> t < effectiveEnd item)"

datatype js_error = TypeError

text \<open>
  The binary search loop of \<^verbatim>\<open>findItemAtTime\<close>. \<open>left\<close> and \<open>right\<close> are integers
  (\<open>right\<close> may become \<open>-1\<close>). Reading \<^verbatim>\<open>items[mid]\<close> out of range gives \<open>undefined\<close>,
  and the following \<^verbatim>\<open>item.start_ms\<close> raises a TypeError.
\<close>

function findItemAtTime_loop ::
  "TrackItem list \<Rightarrow> real \<Rightarrow> int \<Rightarrow> int \<Rightarrow> js_error + TrackItem option" where
  "findItemAtTime_loop items clampedTime left right =
     (if left \<le> right then
        (let mid = (left + right) div 2 in
         if mid < 0 \<or> int (length items) \<le> mid then Inl TypeError
         else
           (let item = items ! nat mid;
                startTime = start_ms item;
                endTime = effectiveEnd item
            in if clampedTime \<ge> startTime \<and> clampedTime < endTime then Inr (Some item)
               else if mid = int (length items) - 1 \<and> clampedTime = endTime then Inr (Some item)
               else if clampedTime < startTime
                 then findItemAtTime_loop items clampedTime left (mid - 1)
                 else findItemAtTime_loop items clampedTime (mid + 1) right))
      else Inr None)"
  by pat_completeness auto
termination
  by (relation "measure (\<lambda>(items, t, left, right). nat (right - left + 1))") auto

definition findItemAtTime :: "TrackItem list \<Rightarrow> real \<Rightarrow> js_error + TrackItem option" where
  "findItemAtTime items timeMs =
     (if items = [] then Inr None
      else findItemAtTime_loop items (max 0 timeMs) 0 (int (length items) - 1))"

definition calculateItemRelativeTime :: "TrackItem \<Rightarrow> real \<Rightarrow> real" where
  "calculateItemRelativeTime item masterTimeMs =
     (let relativeMs = masterTimeMs - start_ms item in
      if relativeMs < 0 then 0
      else
        (let relativeSeconds = relativeMs / 1000 in
         if truthy (duration_ms item)
         then min relativeSeconds (the (duration_ms item) / 1000)
         else relativeSeconds))"

text \<open>The three-item video track of the scenarios: [0, 30000), [30000, 90000), [90000, 120000).\<close>

definition item1 :: TrackItem where
  "item1 = \<lparr>item_id = ''v1'', item_file = ''a.mp4'', start_ms = 0, duration_ms = Some 30000, end_ms = None\<rparr>"

definition item2 :: TrackItem where
  "item2 = \<lparr>item_id = ''v2'', item_file = ''b.mp4'', start_ms = 30000, duration_ms = Some 60000, end_ms = None\<rparr>"

definition item3 :: TrackItem where
  "item3 = \<lparr>item_id = ''v3'', item_file = ''c.mp4'', start_ms = 90000, duration_ms = Some 30000, end_ms = None\<rparr>"

definition track3 :: "TrackItem list" where
  "track3 = [item1, item2, item3]"

text \<open>
  Pairwise form of "sorted by start, each range ends before the next one starts": for
  \<open>i < j\<close> item \<open>i\<close> starts no later than, and ends no later than, the start of item \<open>j\<close>.
\<close>

definition ordered :: "TrackItem list \<Rightarrow> bool" where
  "ordered items = (\<forall>i j. i < j \<and> j < length items \<longrightarrow>
      start_ms (items ! i) \<le> start_ms (items ! j) \<and> effectiveEnd (items ! i) \<le> start_ms (items ! j))"

subsection \<open>The timeline index as the specification words it\<close>

text \<open>
  The specification's effective end: \<open>end_ms\<close> if present, else \<open>start_ms + duration_ms\<close>,
  else undefined (an open-ended item never matches). \<open>claimed_findItemAtTime\<close> is the
  result the specification demands: the item whose half-open range contains the clamped
  time, else the last item when the clamped time is its effective end, else nothing.
\<close>

definition claimed_effectiveEnd :: "TrackItem \<Rightarrow> real option" where
  "claimed_effectiveEnd item =
     (case end_ms item of Some e \<Rightarrow> Some e
      | None \<Rightarrow> (case duration_ms item of Some d \<Rightarrow> Some (start_ms item + d) | None \<Rightarrow> None))"

definition claimed_contains :: "TrackItem \<Rightarrow> real \<Rightarrow> bool" where
  "claimed_contains item t =
     (case claimed_effectiveEnd item of Some e \<Rightarrow> start_ms item \<le> t \<and> t < e | None \<Rightarrow> False)"

definition claimed_findItemAtTime :: "TrackItem list \<Rightarrow> real \<Rightarrow> TrackItem option" where
  "claimed_findItemAtTime items t =
     (case filter (\<lambda>x. claimed_contains x (max 0 t)) items of
        x # _ \<Rightarrow> Some x
      | [] \<Rightarrow> if items \<noteq> [] \<and> claimed_effectiveEnd (last items) = Some (max 0 t)
              then Some (last items) else None)"

text \<open>The specification's relative time: clamped to the duration whenever one is present.\<close>

definition claimed_calculateItemRelativeTime :: "TrackItem \<Rightarrow> real \<Rightarrow> real" where
  "claimed_calculateItemRelativeTime item t =
     (case duration_ms item of
        Some d \<Rightarrow> max 0 (min ((t - start_ms item) / 1000) (d / 1000))
      | None \<Rightarrow> max 0 ((t - start_ms item) / 1000))"

text \<open>Items at the edges of the data model.\<close>

definition open_item :: TrackItem where
  "open_item = \<lparr>item_id = ''open'', item_file = ''o.mp4'', start_ms = 5, duration_ms = None, end_ms = None\<rparr>"

definition zero_end_item :: TrackItem where
  "zero_end_item = \<lparr>item_id = ''z'', item_file = ''z.mp4'', start_ms = 0, duration_ms = Some 100, end_ms = Some 0\<rparr>"

definition zero_duration_item :: TrackItem where
  "zero_duration_item = \<lparr>item_id = ''d0'', item_file = ''d.mp4'', start_ms = 0, duration_ms = Some 0, end_ms = None\<rparr>"

definition short_item :: TrackItem where
  "short_item = \<lparr>item_id = ''a'', item_file = ''a.mp4'', start_ms = 0, duration_ms = Some 10, end_ms = None\<rparr>"

definition inverted_item1 :: TrackItem where
  "inverted_item1 = \<lparr>item_id = ''b'', item_file = ''b.mp4'', start_ms = 50, duration_ms = None, end_ms = Some 20\<rparr>"

definition inverted_item2 :: TrackItem where
  "inverted_item2 = \<lparr>item_id = ''c'', item_file = ''c.mp4'', start_ms = 60, duration_ms = None, end_ms = Some 20\<rparr>"

section \<open>Master clock: src/renderer/services/MasterClock.ts\<close>

datatype ClockEventType = Play | Pause | Seek | RateChange | TimeUpdate | Ended | Sync

record ClockEvent =
  ev_type :: ClockEventType
  ev_time :: real
  ev_playbackRate :: real
  ev_isPlaying :: bool

text \<open>
  What a registered manager's \<^verbatim>\<open>seek(timeMs)\<close> does when the clock calls it: it throws, it
  returns something that is not a Promise, or it returns a Promise that is fulfilled or
  rejected after some milliseconds, or never settles. A registered value may also be falsy
  or have no \<^verbatim>\<open>seek\<close> function. \<^verbatim>\<open>this.managers\<close> is a Set of objects: each registered object
  is named by a number, its identity, and the Set is the list of the objects in insertion
  order, each identity at most once.
\<close>

datatype PromiseFate = FulfilsAfter real | RejectsAfter real | NeverSettles

datatype SeekReturn = ReturnsPromise PromiseFate | ReturnsValue | ThrowsError

datatype Manager = NullManager | NoSeekFunction | SeekFunction "real \<Rightarrow> SeekReturn"

text \<open>
  The fields of the class, in the order of the source, then \<open>lastJumpTime\<close> (the property
  added through \<^verbatim>\<open>(this as any).lastJumpTime\<close>) and three logs of effects: the events sent
  to the listeners (through \<^verbatim>\<open>emit\<close> or the loop of \<^verbatim>\<open>updateTimeFromVideo\<close>), the calls \<^verbatim>\<open>manager.seek(t)\<close> made (manager identity and argument), and
  the number of \<^verbatim>\<open>performSeek\<close> promises created so far, which names each promise.
\<close>

record MasterClock =
  currentTime :: real
  duration :: real
  playbackRate :: real
  isPlaying :: bool
  startTime :: real
  lastUpdateTime :: real
  animationFrameId :: "nat option"
  syncInterval :: "nat option"
  frameCount :: nat
  lastFpsTime :: real
  currentFps :: nat
  useVideoSync :: bool
  lastVideoUpdateTime :: real
  managers :: "(nat \<times> Manager) list"
  isSeeking :: bool
  lastSeekTime :: real
  lastSeekTimestamp :: real
  seekPromise :: "nat option"
  lastJumpTime :: "real option"
  emitted :: "ClockEvent list"
  managerSeeks :: "(nat \<times> real) list"
  seekPasses :: nat

text \<open>The field initialisers of the class.\<close>

definition newMasterClock :: MasterClock where
  "newMasterClock = \<lparr>currentTime = 0, duration = 0, playbackRate = 1, isPlaying = False,
     startTime = 0, lastUpdateTime = 0, animationFrameId = None, syncInterval = None,
     frameCount = 0, lastFpsTime = 0, currentFps = 0, useVideoSync = True,
     lastVideoUpdateTime = 0, managers = [], isSeeking = False, lastSeekTime = 0,
     lastSeekTimestamp = 0, seekPromise = None, lastJumpTime = None, emitted = [],
     managerSeeks = [], seekPasses = 0\<rparr>"

definition registerManager :: "nat \<Rightarrow> Manager \<Rightarrow> MasterClock \<Rightarrow> MasterClock" where
  "registerManager ref manager s =
     (if ref \<in> fst ` set (managers s) then s
      else s\<lparr>managers := managers s @ [(ref, manager)]\<rparr>)"

definition unregisterManager :: "nat \<Rightarrow> MasterClock \<Rightarrow> MasterClock" where
  "unregisterManager ref s = s\<lparr>managers := filter (\<lambda>rm. fst rm \<noteq> ref) (managers s)\<rparr>"

text \<open>\<^verbatim>\<open>emit\<close>: every listener receives the event; a listener's exception is caught.\<close>

definition emit :: "ClockEvent \<Rightarrow> MasterClock \<Rightarrow> MasterClock" where
  "emit event s = s\<lparr>emitted := emitted s @ [event]\<rparr>"

definition clockEvent :: "ClockEventType \<Rightarrow> MasterClock \<Rightarrow> ClockEvent" where
  "clockEvent ty s = \<lparr>ev_type = ty, ev_time = currentTime s,
     ev_playbackRate = playbackRate s, ev_isPlaying = isPlaying s\<rparr>"

text \<open>
  \<open>now\<close> is the value of \<^verbatim>\<open>performance.now()\<close>, \<open>dnow\<close> that of \<^verbatim>\<open>Date.now()\<close>, and \<open>h\<close> the
  handle that \<^verbatim>\<open>requestAnimationFrame\<close> or \<^verbatim>\<open>setInterval\<close> returns.
\<close>

definition startUpdateLoop :: "real \<Rightarrow> nat \<Rightarrow> MasterClock \<Rightarrow> MasterClock" where
  "startUpdateLoop now h s =
     (if animationFrameId s = None
      then s\<lparr>lastFpsTime := now, frameCount := 0, animationFrameId := Some h\<rparr>
      else s)"

definition stopUpdateLoop :: "MasterClock \<Rightarrow> MasterClock" where
  "stopUpdateLoop s = (if animationFrameId s \<noteq> None then s\<lparr>animationFrameId := None\<rparr> else s)"

definition startSyncInterval :: "nat \<Rightarrow> MasterClock \<Rightarrow> MasterClock" where
  "startSyncInterval h s = (if syncInterval s = None then s\<lparr>syncInterval := Some h\<rparr> else s)"

definition stopSyncInterval :: "MasterClock \<Rightarrow> MasterClock" where
  "stopSyncInterval s = (if syncInterval s \<noteq> None then s\<lparr>syncInterval := None\<rparr> else s)"

definition initialize :: "real \<Rightarrow> MasterClock \<Rightarrow> MasterClock" where
  "initialize durationMs s =
     stopUpdateLoop (s\<lparr>duration := durationMs, currentTime := 0, isPlaying := False,
                       playbackRate := 1\<rparr>)"

definition play :: "real \<Rightarrow> nat \<Rightarrow> nat \<Rightarrow> MasterClock \<Rightarrow> MasterClock" where
  "play now h1 h2 s =
     (if isPlaying s then s
      else
        (let s1 = s\<lparr>isPlaying := True,
                     startTime := now - currentTime s / playbackRate s,
                     lastUpdateTime := now\<rparr>;
             s2 = emit ((clockEvent Play s1)\<lparr>ev_isPlaying := True\<rparr>) s1
         in startSyncInterval h2 (startUpdateLoop now h1 s2)))"

definition pause :: "MasterClock \<Rightarrow> MasterClock" where
  "pause s =
     (if \<not> isPlaying s then s
      else
        (let s1 = stopSyncInterval (stopUpdateLoop (s\<lparr>isPlaying := False\<rparr>))
         in emit ((clockEvent Pause s1)\<lparr>ev_isPlaying := False\<rparr>) s1))"

definition setPlaybackRate :: "real \<Rightarrow> real \<Rightarrow> MasterClock \<Rightarrow> MasterClock" where
  "setPlaybackRate now rate s =
     (if rate \<le> 0 \<or> rate > 4 then s
      else
        (let s1 = (if isPlaying s
                   then (let elapsed = now - startTime s;
                             s' = s\<lparr>currentTime := elapsed * playbackRate s\<rparr>
                         in s'\<lparr>startTime := now - currentTime s' / rate\<rparr>)
                   else s);
             s2 = s1\<lparr>playbackRate := rate\<rparr>
         in emit (clockEvent RateChange s2) s2))"

definition updateTimeFromVideo :: "real \<Rightarrow> real \<Rightarrow> bool \<Rightarrow> MasterClock \<Rightarrow> MasterClock" where
  "updateTimeFromVideo now timeMs isVideoPlaying s =
     (if isSeeking s then s
      else if \<not> useVideoSync s then s
      else
        (let timeDiff = \<bar>currentTime s - timeMs\<bar> in
         if timeMs < 0 \<or> timeMs > duration s + 1000 then s
         else
           (let isLargeJump = (timeDiff > 1000);
                isBackwardJump = (timeMs < currentTime s - 500);
                isResetToZero = (timeMs = 0 \<and> currentTime s > 1000)
            in if isResetToZero then s
               else if timeDiff > 50 \<or> isPlaying s \<noteq> isVideoPlaying \<or> isLargeJump \<or> isBackwardJump
               then
                 (if (isLargeJump \<or> isBackwardJump) \<and> now - js_or (lastJumpTime s) 0 < 1000
                  then s
                  else
                    (let s1 = (if isLargeJump \<or> isBackwardJump
                               then s\<lparr>lastJumpTime := Some now\<rparr> else s);
                         s2 = s1\<lparr>currentTime := timeMs\<rparr>;
                         s3 = (if isPlaying s2 \<noteq> isVideoPlaying
                               then (let s' = s2\<lparr>isPlaying := isVideoPlaying\<rparr>
                                     in if isVideoPlaying
                                        then s'\<lparr>startTime := now - currentTime s' / playbackRate s'\<rparr>
                                        else s')
                               else s2);
                         shouldUpdateImmediately =
                           (isLargeJump \<or> isBackwardJump \<or> now - lastVideoUpdateTime s3 > 100)
                     in if shouldUpdateImmediately
                        then (let s4 = s3\<lparr>lastVideoUpdateTime := now\<rparr>
                              in emit (clockEvent TimeUpdate s4) s4)
                        else s3))
               else s)))"

text \<open>The part of \<^verbatim>\<open>update\<close> after the position has been advanced.\<close>

definition update_rest :: "real \<Rightarrow> nat \<Rightarrow> MasterClock \<Rightarrow> MasterClock" where
  "update_rest now h s =
     (let s1 = (if now - lastUpdateTime s \<ge> 100
                then (emit (clockEvent TimeUpdate s) s)\<lparr>lastUpdateTime := now\<rparr>
                else s);
          s2 = s1\<lparr>frameCount := frameCount s1 + 1\<rparr>;
          s3 = (if now - lastFpsTime s2 \<ge> 1000
                then s2\<lparr>currentFps := frameCount s2, frameCount := 0, lastFpsTime := now\<rparr>
                else s2)
      in s3\<lparr>animationFrameId := Some h\<rparr>)"

definition update :: "real \<Rightarrow> nat \<Rightarrow> MasterClock \<Rightarrow> MasterClock" where
  "update now h s =
     (if isSeeking s then (if isPlaying s then s\<lparr>animationFrameId := Some h\<rparr> else s)
      else if isPlaying s then
        (let elapsed = (now - startTime s) * playbackRate s in
         if \<not> useVideoSync s \<or> now - lastVideoUpdateTime s > 500 then
           (let s1 = s\<lparr>currentTime := min elapsed (duration s)\<rparr> in
            if currentTime s1 \<ge> duration s1 then
              (let s2 = pause (s1\<lparr>currentTime := duration s1\<rparr>)
               in emit ((clockEvent Ended s2)\<lparr>ev_isPlaying := False\<rparr>) s2)
            else update_rest now h s1)
         else update_rest now h s)
      else s)"

text \<open>The callback of the sync interval (every 500 ms while the interval is installed).\<close>

definition syncTick :: "MasterClock \<Rightarrow> MasterClock" where
  "syncTick s = (if isPlaying s \<and> \<not> isSeeking s then emit (clockEvent Sync s) s else s)"

subsection \<open>Coordinated seek\<close>

definition SEEK_TIMEOUT :: real where
  "SEEK_TIMEOUT = 3000"

text \<open>
  One manager's seek wrapped in its timeout: \<^verbatim>\<open>seekWithTimeout\<close>. The wrapper is a promise
  that the first call of \<^verbatim>\<open>resolve\<close> or \<^verbatim>\<open>reject\<close> settles; later calls do nothing. Its
  callbacks are the timer (\<open>TimeoutFires\<close>, which warns and resolves unless the timer was
  cleared) and the reactions to the manager's promise (\<open>SeekFulfilled\<close>, \<open>SeekRejected\<close>,
  which clear the timer and resolve; the second logs the error). Times are milliseconds
  since \<^verbatim>\<open>performSeek\<close> was called.
\<close>

datatype Callback = TimeoutFires | SeekFulfilled | SeekRejected

datatype Settled = Fulfilled | Rejected

datatype LogLine = TimeoutWarning | SeekFailedError

record Wrapper =
  outcome :: "(real \<times> Settled) option"
  timerActive :: bool
  logged :: "LogLine list"

definition settle :: "real \<Rightarrow> Settled \<Rightarrow> Wrapper \<Rightarrow> Wrapper" where
  "settle tm st w = (if outcome w = None then w\<lparr>outcome := Some (tm, st)\<rparr> else w)"

fun runCallback :: "real \<times> Callback \<Rightarrow> Wrapper \<Rightarrow> Wrapper" where
  "runCallback (tm, TimeoutFires) w =
     (if timerActive w
      then settle tm Fulfilled (w\<lparr>timerActive := False, logged := logged w @ [TimeoutWarning]\<rparr>)
      else w)"
| "runCallback (tm, SeekFulfilled) w = settle tm Fulfilled (w\<lparr>timerActive := False\<rparr>)"
| "runCallback (tm, SeekRejected) w =
     settle tm Fulfilled (w\<lparr>timerActive := False, logged := logged w @ [SeekFailedError]\<rparr>)"

text \<open>Callbacks run in the order of their times.\<close>

definition runCallbacks :: "(real \<times> Callback) list \<Rightarrow> Wrapper \<Rightarrow> Wrapper" where
  "runCallbacks cbs w = fold runCallback (sort_key fst cbs) w"

definition seekWithTimeout :: "SeekReturn \<Rightarrow> Wrapper" where
  "seekWithTimeout ret =
     (let w0 = \<lparr>outcome = None, timerActive = True, logged = []\<rparr>;
          timer = (SEEK_TIMEOUT, TimeoutFires)
      in case ret of
           ThrowsError \<Rightarrow> runCallbacks [timer] (settle 0 Rejected w0)
         | ReturnsValue \<Rightarrow> runCallbacks [timer] (settle 0 Fulfilled (w0\<lparr>timerActive := False\<rparr>))
         | ReturnsPromise (FulfilsAfter d) \<Rightarrow> runCallbacks [timer, (d, SeekFulfilled)] w0
         | ReturnsPromise (RejectsAfter d) \<Rightarrow> runCallbacks [timer, (d, SeekRejected)] w0
         | ReturnsPromise NeverSettles \<Rightarrow> runCallbacks [timer] w0)"

text \<open>
  The loop over \<^verbatim>\<open>this.managers\<close>: the wrapped promises pushed, and the managers called
  (identity and argument), in order.
\<close>

definition hasSeek :: "Manager \<Rightarrow> bool" where
  "hasSeek m = (case m of SeekFunction f \<Rightarrow> True | _ \<Rightarrow> False)"

definition callSeek :: "Manager \<Rightarrow> real \<Rightarrow> SeekReturn" where
  "callSeek m t = (case m of SeekFunction f \<Rightarrow> f t | _ \<Rightarrow> ReturnsValue)"

definition seekPromises :: "(nat \<times> Manager) list \<Rightarrow> real \<Rightarrow> Wrapper list" where
  "seekPromises ms clampedTime =
     map (\<lambda>rm. seekWithTimeout (callSeek (snd rm) clampedTime)) (filter (\<lambda>rm. hasSeek (snd rm)) ms)"

definition seekCalls :: "(nat \<times> Manager) list \<Rightarrow> real \<Rightarrow> (nat \<times> real) list" where
  "seekCalls ms clampedTime =
     map (\<lambda>rm. (fst rm, clampedTime)) (filter (\<lambda>rm. hasSeek (snd rm)) ms)"

text \<open>
  \<^verbatim>\<open>Promise.allSettled\<close>: settles once every promise has settled, at the latest of their
  times; it never settles if one of them never does.
\<close>

definition allSettled :: "Wrapper list \<Rightarrow> real option" where
  "allSettled ws =
     (if \<forall>w\<in>set ws. outcome w \<noteq> None
      then Some (fold max (map (\<lambda>w. fst (the (outcome w))) ws) 0)
      else None)"

text \<open>
  \<^verbatim>\<open>performSeek\<close> up to its \<^verbatim>\<open>await\<close>: the state is updated and every manager is called.
  The result names the promise that \<^verbatim>\<open>performSeek\<close> returns.
\<close>

definition performSeek_start :: "real \<Rightarrow> real \<Rightarrow> MasterClock \<Rightarrow> nat \<times> MasterClock" where
  "performSeek_start now clampedTime s =
     (let s1 = s\<lparr>isSeeking := True, currentTime := clampedTime\<rparr>;
          s2 = (if isPlaying s1
                then s1\<lparr>startTime := now - currentTime s1 / playbackRate s1\<rparr> else s1);
          s3 = s2\<lparr>managerSeeks := managerSeeks s2 @ seekCalls (managers s2) clampedTime\<rparr>
      in (seekPasses s3, s3\<lparr>seekPasses := seekPasses s3 + 1\<rparr>))"

text \<open>\<^verbatim>\<open>performSeek\<close> after its \<^verbatim>\<open>await\<close>, once \<^verbatim>\<open>Promise.allSettled\<close> has settled.\<close>

definition performSeek_resume :: "MasterClock \<Rightarrow> MasterClock" where
  "performSeek_resume s =
     (let s1 = emit (clockEvent Seek s) s in s1\<lparr>isSeeking := False, seekPromise := None\<rparr>)"

text \<open>The timer that \<^verbatim>\<open>performSeek\<close> sets at its end, 100 ms later.\<close>

definition performSeek_followup :: "MasterClock \<Rightarrow> MasterClock" where
  "performSeek_followup s = (if \<not> isSeeking s then emit (clockEvent TimeUpdate s) s else s)"

text \<open>
  The \<^verbatim>\<open>await\<close> of \<^verbatim>\<open>performSeek\<close>, given the wrapped promises pushed at the start and the
  state the clock is in when they have all settled (other methods of the clock may have
  run meanwhile): the time at which the \<^verbatim>\<open>await\<close> resumes, with the state after the rest
  of \<^verbatim>\<open>performSeek\<close> has run at that time, or \<open>None\<close> if the \<^verbatim>\<open>await\<close> never resumes.
\<close>

definition performSeek_finish :: "Wrapper list \<Rightarrow> MasterClock \<Rightarrow> (real \<times> MasterClock) option" where
  "performSeek_finish ws s =
     (case allSettled ws of
        None \<Rightarrow> None
      | Some tm \<Rightarrow> Some (tm, performSeek_resume s))"

datatype SeekResult = InFlightPromise nat | ResolvedPromise | NewPromise nat

definition isDuplicateSeek :: "real \<Rightarrow> real \<Rightarrow> MasterClock \<Rightarrow> bool" where
  "isDuplicateSeek dnow clampedTime s =
     (\<bar>clampedTime - lastSeekTime s\<bar> < 1 \<and> dnow - lastSeekTimestamp s < 200)"

text \<open>\<^verbatim>\<open>seek\<close>, up to the point where it returns its promise.\<close>

definition seek :: "real \<Rightarrow> real \<Rightarrow> real \<Rightarrow> MasterClock \<Rightarrow> SeekResult \<times> MasterClock" where
  "seek dnow now timeMs s =
     (let clampedTime = max 0 (min timeMs (duration s)) in
      if isDuplicateSeek dnow clampedTime s
      then ((case seekPromise s of Some p \<Rightarrow> InFlightPromise p | None \<Rightarrow> ResolvedPromise), s)
      else if isSeeking s \<and> seekPromise s \<noteq> None
      then (InFlightPromise (the (seekPromise s)), s)
      else
        (let s1 = s\<lparr>lastSeekTime := clampedTime, lastSeekTimestamp := dnow\<rparr>;
             started = performSeek_start now clampedTime s1
         in (NewPromise (fst started), (snd started)\<lparr>seekPromise := Some (fst started)\<rparr>)))"

definition stop :: "real \<Rightarrow> real \<Rightarrow> MasterClock \<Rightarrow> MasterClock" where
  "stop dnow now s = snd (seek dnow now 0 (pause s))"

text \<open>
  The calls that reach the clock from outside, with the values they read from the
  environment: its public methods (\<^verbatim>\<open>subscribe\<close> and \<^verbatim>\<open>destroy\<close>, which act on the listener
  set, and \<^verbatim>\<open>getState\<close> apart), the animation frame callback \<^verbatim>\<open>update\<close>, the callback of
  the sync interval, and the follow-up timer of a finished seek.
\<close>

datatype ClockCall =
    CallRegisterManager nat Manager
  | CallUnregisterManager nat
  | CallInitialize real
  | CallPlay real nat nat
  | CallPause
  | CallStop real real
  | CallSeek real real real
  | CallSetPlaybackRate real real
  | CallUpdateTimeFromVideo real real bool
  | FrameCallback real nat
  | SyncCallback
  | FollowupTimer

fun applyCall :: "ClockCall \<Rightarrow> MasterClock \<Rightarrow> MasterClock" where
  "applyCall (CallRegisterManager ref manager) s = registerManager ref manager s"
| "applyCall (CallUnregisterManager ref) s = unregisterManager ref s"
| "applyCall (CallInitialize durationMs) s = initialize durationMs s"
| "applyCall (CallPlay now h1 h2) s = play now h1 h2 s"
| "applyCall CallPause s = pause s"
| "applyCall (CallStop dnow now) s = stop dnow now s"
| "applyCall (CallSeek dnow now timeMs) s = snd (seek dnow now timeMs s)"
| "applyCall (CallSetPlaybackRate now rate) s = setPlaybackRate now rate s"
| "applyCall (CallUpdateTimeFromVideo now timeMs isVideoPlaying) s =
     updateTimeFromVideo now timeMs isVideoPlaying s"
| "applyCall (FrameCallback now h) s = update now h s"
| "applyCall SyncCallback s = syncTick s"
| "applyCall FollowupTimer s = performSeek_followup s"

definition applyCalls :: "ClockCall list \<Rightarrow> MasterClock \<Rightarrow> MasterClock" where
  "applyCalls calls s = fold applyCall calls s"

text \<open>
  The calls that write the position while a seek is in flight are \<^verbatim>\<open>initialize\<close> and a
  \<^verbatim>\<open>setPlaybackRate\<close> with an accepted rate while playing. \<open>positionKept calls s\<close> says that
  none of the calls, run in order from \<open>s\<close>, is one of these.
\<close>

fun leavesPosition :: "ClockCall \<Rightarrow> MasterClock \<Rightarrow> bool" where
  "leavesPosition (CallInitialize durationMs) s = False"
| "leavesPosition (CallSetPlaybackRate now rate) s = (\<not> isPlaying s \<or> rate \<le> 0 \<or> rate > 4)"
| "leavesPosition call s = True"

fun positionKept :: "ClockCall list \<Rightarrow> MasterClock \<Rightarrow> bool" where
  "positionKept [] s = True"
| "positionKept (call # calls) s = (leavesPosition call s \<and> positionKept calls (applyCall call s))"

text \<open>
  What can happen to the clock between two calls of \<^verbatim>\<open>seek\<close> without another seek and
  without \<^verbatim>\<open>initialize\<close>: a pending coordination resumes, its follow-up timer fires, a
  frame or sync tick runs, the video reports its time, or the rate, play or pause
  commands are called.
\<close>

inductive clockStep :: "MasterClock \<Rightarrow> MasterClock \<Rightarrow> bool" where
  step_resume: "isSeeking s \<Longrightarrow> clockStep s (performSeek_resume s)"
| step_followup: "clockStep s (performSeek_followup s)"
| step_update: "clockStep s (update now h s)"
| step_sync: "clockStep s (syncTick s)"
| step_video: "clockStep s (updateTimeFromVideo now timeMs isVideoPlaying s)"
| step_rate: "clockStep s (setPlaybackRate now rate s)"
| step_play: "clockStep s (play now h1 h2 s)"
| step_pause: "clockStep s (pause s)"


text \<open>The fields that decide whether a seek is dropped, and the logs of the passes started.\<close>

definition seekFields ::
  "MasterClock \<Rightarrow> real \<times> real \<times> real \<times> nat \<times> (nat \<times> real) list \<times>
     (nat \<times> Manager) list \<times> nat option" where
  "seekFields s = (lastSeekTime s, lastSeekTimestamp s, duration s, seekPasses s, managerSeeks s,
     managers s, seekPromise s)"

subsection \<open>Scenario states, reached from a new clock through its methods\<close>

definition clock_loaded :: MasterClock where
  "clock_loaded = initialize 120000 newMasterClock"

definition clock_playing :: MasterClock where
  "clock_playing = play 1000 1 2 clock_loaded"

definition clock_video_60000 :: MasterClock where
  "clock_video_60000 = updateTimeFromVideo 2000 60000 True clock_playing"

definition clock_video_at_end :: MasterClock where
  "clock_video_at_end = updateTimeFromVideo 2000 120000 True clock_playing"

definition clock_118000 :: MasterClock where
  "clock_118000 = updateTimeFromVideo 3000 118000 True clock_playing"

definition slowManager :: Manager where
  "slowManager = SeekFunction (\<lambda>t. ReturnsPromise (FulfilsAfter 50))"

definition stuckManager :: Manager where
  "stuckManager = SeekFunction (\<lambda>t. ReturnsPromise NeverSettles)"

definition clock_with_manager :: MasterClock where
  "clock_with_manager = registerManager 0 slowManager clock_loaded"

definition clock_two_managers :: MasterClock where
  "clock_two_managers = registerManager 1 stuckManager clock_with_manager"

definition clock_seeking_1000 :: MasterClock where
  "clock_seeking_1000 = snd (seek 1000000 500 1000 clock_with_manager)"

definition clock_seeking_9000 :: MasterClock where
  "clock_seeking_9000 = snd (seek 1000000 500 9000 clock_with_manager)"

definition clock_two_seeking :: MasterClock where
  "clock_two_seeking = snd (seek 1000000 500 1000 clock_two_managers)"

definition clock_playing_with_manager :: MasterClock where
  "clock_playing_with_manager = play 1000 1 2 clock_with_manager"

definition clock_playing_seeking_1000 :: MasterClock where
  "clock_playing_seeking_1000 = snd (seek 1000000 1500 1000 clock_playing_with_manager)"

definition clock_playing_seeking_end :: MasterClock where
  "clock_playing_seeking_end = snd (seek 1000000 1500 120000 clock_playing_with_manager)"

section \<open>Track managers: src/renderer/managers/VideoJsManager.ts and AudioManager.ts\<close>

text \<open>
  The part of each manager that the periodic sync pass reads and writes. The native
  source (the video.js player, the audio element) is a record of what the manager reads
  from it, with a log of the writes to its current time and a count of the play calls.
  \<open>dnow\<close> is the value of \<^verbatim>\<open>Date.now()\<close>.
\<close>

record SyncMetrics =
  drift :: real
  corrections :: nat
  averageDrift :: real
  maxDrift :: real

definition MAX_DRIFT_HISTORY :: nat where
  "MAX_DRIFT_HISTORY = 100"

text \<open>\<^verbatim>\<open>updateSyncMetrics\<close>, the same in both managers, on the metrics and the drift history.\<close>

definition updateSyncMetrics :: "real \<Rightarrow> SyncMetrics \<times> real list \<Rightarrow> SyncMetrics \<times> real list" where
  "updateSyncMetrics d mh =
     (let m1 = (fst mh)\<lparr>drift := d\<rparr>;
          h1 = snd mh @ [d];
          h2 = (if length h1 > MAX_DRIFT_HISTORY then tl h1 else h1);
          sum = fold (\<lambda>b a. a + b) h2 0;
          m2 = m1\<lparr>averageDrift := sum / real (length h2)\<rparr>
      in (m2\<lparr>maxDrift := max (maxDrift m2) d\<rparr>, h2))"

record VideoPlayer =
  vp_currentTime :: "real option"
  vp_duration :: "real option"
  vp_playbackRate :: "real option"
  vp_paused :: bool
  vp_timeWrites :: "real list"
  vp_playCalls :: nat

record VideoJsManager =
  player :: "VideoPlayer option"
  vm_isSeeking :: bool
  vm_lastSyncTime :: real
  vm_syncMetrics :: SyncMetrics
  vm_driftHistory :: "real list"
  vm_visible :: bool

definition VIDEO_SYNC_TOLERANCE :: real where
  "VIDEO_SYNC_TOLERANCE = 200"

definition videoDuration :: "TrackItem \<Rightarrow> VideoPlayer \<Rightarrow> real option" where
  "videoDuration item p =
     (if truthy (duration_ms item) then Some (the (duration_ms item) / 1000) else vp_duration p)"

definition videoDrift :: "TrackItem \<Rightarrow> real \<Rightarrow> VideoPlayer \<Rightarrow> real" where
  "videoDrift item masterTime p =
     \<bar>(case vp_currentTime p of None \<Rightarrow> 0 | Some x \<Rightarrow> x) - calculateItemRelativeTime item masterTime\<bar> * 1000"

text \<open>
  \<^verbatim>\<open>syncCurrentVideo\<close> in its three blocks, each on the manager and its player: the sync
  correction (\<open>d\<close> is the measured drift), the playback rate, and the playing state.
\<close>

definition correctVideo ::
  "real \<Rightarrow> real \<Rightarrow> real \<Rightarrow> real \<Rightarrow> VideoJsManager \<times> VideoPlayer \<Rightarrow> VideoJsManager \<times> VideoPlayer" where
  "correctVideo dnow d currentVideoTime targetTime sp =
     (if d > VIDEO_SYNC_TOLERANCE \<and> \<not> vm_isSeeking (fst sp) \<and>
         dnow - vm_lastSyncTime (fst sp) > 2000 \<and> \<bar>currentVideoTime - targetTime\<bar> > 0.5
      then ((fst sp)\<lparr>vm_isSeeking := True,
                      vm_lastSyncTime := dnow,
                      vm_syncMetrics := (vm_syncMetrics (fst sp))
                         \<lparr>corrections := corrections (vm_syncMetrics (fst sp)) + 1\<rparr>\<rparr>,
            (snd sp)\<lparr>vp_currentTime := Some targetTime,
                      vp_timeWrites := vp_timeWrites (snd sp) @ [targetTime]\<rparr>)
      else sp)"

definition syncVideoRate :: "real \<Rightarrow> VideoPlayer \<Rightarrow> VideoPlayer" where
  "syncVideoRate rate p =
     (if \<bar>(case vp_playbackRate p of None \<Rightarrow> 1 | Some r \<Rightarrow> r) - rate\<bar> > 0.01
      then p\<lparr>vp_playbackRate := Some rate\<rparr> else p)"

definition ensureVideoPlaying ::
  "real \<Rightarrow> real option \<Rightarrow> VideoJsManager \<times> VideoPlayer \<Rightarrow> VideoJsManager" where
  "ensureVideoPlaying videoTime vd sp =
     (if vp_paused (snd sp) \<and> videoTime \<ge> 0 \<and> (\<not> truthy vd \<or> videoTime < the vd)
      then (fst sp)\<lparr>vm_visible := True,
                     player := Some ((snd sp)\<lparr>vp_playCalls := vp_playCalls (snd sp) + 1\<rparr>)\<rparr>
      else (fst sp)\<lparr>player := Some (snd sp)\<rparr>)"

definition syncCurrentVideo ::
  "real \<Rightarrow> real \<Rightarrow> real \<Rightarrow> TrackItem \<Rightarrow> VideoJsManager \<Rightarrow> VideoJsManager" where
  "syncCurrentVideo dnow masterTime rate item s =
     (case player s of
        None \<Rightarrow> s
      | Some p \<Rightarrow>
        if vm_isSeeking s then s
        else
          (let videoTime = calculateItemRelativeTime item masterTime;
               vd = videoDuration item p
           in if videoTime < 0 \<or> (truthy vd \<and> videoTime > the vd + 0.5) then s
              else
                (let currentVideoTime = (case vp_currentTime p of None \<Rightarrow> 0 | Some x \<Rightarrow> x);
                     d = \<bar>currentVideoTime - videoTime\<bar> * 1000;
                     mh = updateSyncMetrics d (vm_syncMetrics s, vm_driftHistory s);
                     s1 = s\<lparr>vm_syncMetrics := fst mh, vm_driftHistory := snd mh\<rparr>;
                     targetTime = max 0 (min videoTime (js_or vd videoTime));
                     corrected = correctVideo dnow d currentVideoTime targetTime (s1, p)
                 in ensureVideoPlaying videoTime vd
                      (fst corrected, syncVideoRate rate (snd corrected)))))"

record AudioElement =
  ae_currentTime :: real
  ae_duration :: "real option"
  ae_playbackRate :: real
  ae_paused :: bool
  ae_readyState :: nat
  ae_timeWrites :: "real list"
  ae_playCalls :: nat

record AudioManager =
  audioElement :: "AudioElement option"
  am_pitchShifter :: "(real \<times> real) option"
  am_usePitchCorrection :: bool
  am_isBuffering :: bool
  am_currentPlaybackRate :: real
  am_playPromise :: bool
  am_lastSeekTimestamp :: real
  am_lastPlayAttemptTime :: "real option"
  am_syncMetrics :: SyncMetrics
  am_driftHistory :: "real list"

definition AUDIO_SYNC_TOLERANCE :: real where
  "AUDIO_SYNC_TOLERANCE = 100"

definition audioDuration :: "TrackItem \<Rightarrow> AudioElement \<Rightarrow> real option" where
  "audioDuration item a =
     (if truthy (duration_ms item) then Some (the (duration_ms item) / 1000) else ae_duration a)"

definition audioDrift :: "TrackItem \<Rightarrow> real \<Rightarrow> AudioElement \<Rightarrow> real" where
  "audioDrift item masterTime a = \<bar>ae_currentTime a - calculateItemRelativeTime item masterTime\<bar> * 1000"

text \<open>\<^verbatim>\<open>AudioManager.setPlaybackRate\<close>, on the manager and its audio element.\<close>

definition audioSetPlaybackRate :: "real \<Rightarrow> AudioManager \<times> AudioElement \<Rightarrow> AudioManager \<times> AudioElement" where
  "audioSetPlaybackRate rate sa =
     (let s1 = (fst sa)\<lparr>am_currentPlaybackRate := rate\<rparr>; a = snd sa
      in if am_usePitchCorrection s1 \<and> am_pitchShifter s1 \<noteq> None
         then (s1\<lparr>am_pitchShifter := Some (rate, 1)\<rparr>, a\<lparr>ae_playbackRate := 1\<rparr>)
         else (s1, a\<lparr>ae_playbackRate := rate\<rparr>))"

definition pauseIfPlaying :: "AudioElement \<Rightarrow> AudioElement" where
  "pauseIfPlaying a = (if \<not> ae_paused a then a\<lparr>ae_paused := True\<rparr> else a)"

text \<open>
  \<^verbatim>\<open>syncCurrentAudio\<close> in its three blocks, each on the manager and its audio element: the
  sync correction (\<open>d\<close> is the measured drift), the playback rate, and the playing state.
\<close>

definition correctAudio ::
  "real \<Rightarrow> real \<Rightarrow> real \<Rightarrow> AudioManager \<times> AudioElement \<Rightarrow> AudioManager \<times> AudioElement" where
  "correctAudio dnow d clampedTime sa =
     (if d > AUDIO_SYNC_TOLERANCE \<and> d > 200 \<and> dnow - am_lastSeekTimestamp (fst sa) > 1000 \<and>
         \<not> am_isBuffering (fst sa)
      then ((fst sa)\<lparr>am_syncMetrics := (am_syncMetrics (fst sa))
                         \<lparr>corrections := corrections (am_syncMetrics (fst sa)) + 1\<rparr>\<rparr>,
            (snd sa)\<lparr>ae_currentTime := clampedTime,
                      ae_timeWrites := ae_timeWrites (snd sa) @ [clampedTime]\<rparr>)
      else sa)"

definition syncAudioRate :: "real \<Rightarrow> AudioManager \<times> AudioElement \<Rightarrow> AudioManager \<times> AudioElement" where
  "syncAudioRate rate sa =
     (if \<bar>am_currentPlaybackRate (fst sa) - rate\<bar> > 0.01 then audioSetPlaybackRate rate sa else sa)"

definition ensureAudioPlaying ::
  "real \<Rightarrow> real \<Rightarrow> real option \<Rightarrow> AudioManager \<times> AudioElement \<Rightarrow> AudioManager" where
  "ensureAudioPlaying dnow audioTime ad sa =
     (if ae_paused (snd sa) \<and> audioTime \<ge> 0 \<and> (\<not> truthy ad \<or> audioTime < the ad) \<and>
         ae_readyState (snd sa) \<ge> 2 \<and> \<not> am_playPromise (fst sa) \<and>
         dnow - js_or (am_lastPlayAttemptTime (fst sa)) 0 > 1000
      then (fst sa)\<lparr>am_lastPlayAttemptTime := Some dnow, am_playPromise := True,
                     audioElement := Some ((snd sa)\<lparr>ae_playCalls := ae_playCalls (snd sa) + 1\<rparr>)\<rparr>
      else (fst sa)\<lparr>audioElement := Some (snd sa)\<rparr>)"

definition syncCurrentAudio ::
  "real \<Rightarrow> real \<Rightarrow> real \<Rightarrow> TrackItem \<Rightarrow> AudioManager \<Rightarrow> AudioManager" where
  "syncCurrentAudio dnow masterTime rate item s =
     (case audioElement s of
        None \<Rightarrow> s
      | Some a \<Rightarrow>
        if dnow - am_lastSeekTimestamp s < 500 then s
        else
          (let audioTime = calculateItemRelativeTime item masterTime;
               ad = audioDuration item a
           in if audioTime < 0 then s\<lparr>audioElement := Some (pauseIfPlaying a)\<rparr>
              else if truthy ad \<and> audioTime > the ad + 0.1
              then s\<lparr>audioElement := Some (pauseIfPlaying a)\<rparr>
              else
                (let currentAudioTime = ae_currentTime a;
                     d = \<bar>currentAudioTime - audioTime\<bar> * 1000;
                     mh = updateSyncMetrics d (am_syncMetrics s, am_driftHistory s);
                     s1 = s\<lparr>am_syncMetrics := fst mh, am_driftHistory := snd mh\<rparr>;
                     clampedTime = max 0 (min audioTime (js_or ad audioTime));
                     corrected = correctAudio dnow d clampedTime (s1, a)
                 in ensureAudioPlaying dnow audioTime ad (syncAudioRate rate corrected))))"

text \<open>The native current time and the log of the writes to it, through the manager.\<close>

definition videoNativeTime :: "VideoJsManager \<Rightarrow> real option" where
  "videoNativeTime s = (case player s of None \<Rightarrow> None | Some p \<Rightarrow> vp_currentTime p)"

definition audioNativeTime :: "AudioManager \<Rightarrow> real option" where
  "audioNativeTime s = (case audioElement s of None \<Rightarrow> None | Some a \<Rightarrow> Some (ae_currentTime a))"

definition videoTimeWrites :: "VideoJsManager \<Rightarrow> real list" where
  "videoTimeWrites s = (case player s of None \<Rightarrow> [] | Some p \<Rightarrow> vp_timeWrites p)"

definition audioTimeWrites :: "AudioManager \<Rightarrow> real list" where
  "audioTimeWrites s = (case audioElement s of None \<Rightarrow> [] | Some a \<Rightarrow> ae_timeWrites a)"

text \<open>A video manager and an audio manager in the third item of the scenario track.\<close>

definition video_tracking :: VideoJsManager where
  "video_tracking = \<lparr>player = Some \<lparr>vp_currentTime = Some (51 / 10), vp_duration = Some 30,
       vp_playbackRate = Some 1, vp_paused = False, vp_timeWrites = [], vp_playCalls = 0\<rparr>,
     vm_isSeeking = False, vm_lastSyncTime = 0,
     vm_syncMetrics = \<lparr>drift = 0, corrections = 0, averageDrift = 0, maxDrift = 0\<rparr>,
     vm_driftHistory = [], vm_visible = True\<rparr>"

definition video_drifted :: VideoJsManager where
  "video_drifted = video_tracking\<lparr>player := Some \<lparr>vp_currentTime = Some 9, vp_duration = Some 30,
       vp_playbackRate = Some 1, vp_paused = False, vp_timeWrites = [], vp_playCalls = 0\<rparr>\<rparr>"

definition audio_tracking :: AudioManager where
  "audio_tracking = \<lparr>audioElement = Some \<lparr>ae_currentTime = 505 / 100, ae_duration = Some 30,
       ae_playbackRate = 1, ae_paused = False, ae_readyState = 4, ae_timeWrites = [],
       ae_playCalls = 0\<rparr>,
     am_pitchShifter = None, am_usePitchCorrection = False, am_isBuffering = False,
     am_currentPlaybackRate = 1, am_playPromise = False, am_lastSeekTimestamp = 0,
     am_lastPlayAttemptTime = None,
     am_syncMetrics = \<lparr>drift = 0, corrections = 0, averageDrift = 0, maxDrift = 0\<rparr>,
     am_driftHistory = []\<rparr>"

definition audio_drifted :: AudioManager where
  "audio_drifted = audio_tracking\<lparr>audioElement := Some \<lparr>ae_currentTime = 9, ae_duration = Some 30,
       ae_playbackRate = 1, ae_paused = False, ae_readyState = 4, ae_timeWrites = [],
       ae_playCalls = 0\<rparr>\<rparr>"

section \<open>Manifest loading: src/main/contentLoader.ts\<close>

text \<open>
  The manifest as \<^verbatim>\<open>JSON.parse\<close> delivers it, before validation: every field may be
  missing. A field that is present has the type of its interface, except \<open>tracks\<close>, which
  may be present without being an array.
\<close>

record ManifestItem =
  mi_id :: "string option"
  mi_file :: "string option"
  mi_start_ms :: "real option"
  mi_duration_ms :: "real option"
  mi_end_ms :: "real option"

record ManifestTrack =
  mt_id :: "string option"
  mt_type :: "string option"
  mt_items :: "ManifestItem list option"

datatype TracksField = TracksMissing | TracksNotArray | TracksArray "ManifestTrack list"

record Manifest =
  version :: "string option"
  m_duration_ms :: "real option"
  tracks :: TracksField

text \<open>
  The errors thrown: those of \<^verbatim>\<open>validateManifest\<close> with the identifiers their messages
  quote, and the TypeError of reading a property of \<open>undefined\<close>.
\<close>

datatype load_error =
    MissingVersion
  | InvalidDuration
  | MissingTracksArray
  | InvalidTrackStructure "string option"
  | InvalidItem "string option" "string option"
  | UndefinedProperty

text \<open>\<^verbatim>\<open>!s\<close> for an optional string: \<open>undefined\<close> and the empty string are falsy.\<close>

definition falsyString :: "string option \<Rightarrow> bool" where
  "falsyString v = (case v of None \<Rightarrow> True | Some x \<Rightarrow> x = [])"

fun validateItems :: "string option \<Rightarrow> ManifestItem list \<Rightarrow> load_error + unit" where
  "validateItems trackId [] = Inr ()"
| "validateItems trackId (item # rest) =
     (if falsyString (mi_id item) \<or> falsyString (mi_file item) \<or> mi_start_ms item = None
      then Inl (InvalidItem trackId (mi_id item))
      else validateItems trackId rest)"

fun validateTracks :: "ManifestTrack list \<Rightarrow> load_error + unit" where
  "validateTracks [] = Inr ()"
| "validateTracks (track # rest) =
     (if falsyString (mt_id track) \<or> falsyString (mt_type track) \<or> mt_items track = None
      then Inl (InvalidTrackStructure (mt_id track))
      else (case validateItems (mt_id track) (the (mt_items track)) of
              Inl e \<Rightarrow> Inl e
            | Inr u \<Rightarrow> validateTracks rest))"

definition validateManifest :: "Manifest \<Rightarrow> load_error + unit" where
  "validateManifest manifest =
     (if falsyString (version manifest) then Inl MissingVersion
      else if \<not> truthy (m_duration_ms manifest) \<or> the (m_duration_ms manifest) \<le> 0
      then Inl InvalidDuration
      else (case tracks manifest of
              TracksArray ts \<Rightarrow> validateTracks ts
            | _ \<Rightarrow> Inl MissingTracksArray))"

text \<open>
  \<^verbatim>\<open>updateManifestPaths\<close>. \<open>isAbsolute\<close> and \<open>resolve\<close> stand for \<^verbatim>\<open>path.isAbsolute\<close> and
  \<^verbatim>\<open>path.resolve\<close>; the existence check only logs. \<^verbatim>\<open>path.isAbsolute(undefined)\<close> and
  iterating a missing array throw.
\<close>

fun updateItemPaths ::
  "(string \<Rightarrow> bool) \<Rightarrow> (string \<Rightarrow> string \<Rightarrow> string) \<Rightarrow> string \<Rightarrow> ManifestItem list
     \<Rightarrow> load_error + ManifestItem list" where
  "updateItemPaths isAbsolute resolve basePath [] = Inr []"
| "updateItemPaths isAbsolute resolve basePath (item # rest) =
     (case mi_file item of
        None \<Rightarrow> Inl UndefinedProperty
      | Some f \<Rightarrow>
          (case updateItemPaths isAbsolute resolve basePath rest of
             Inl e \<Rightarrow> Inl e
           | Inr rest' \<Rightarrow>
               Inr ((if \<not> isAbsolute f then item\<lparr>mi_file := Some (resolve basePath f)\<rparr> else item)
                    # rest')))"

fun updateTrackPaths ::
  "(string \<Rightarrow> bool) \<Rightarrow> (string \<Rightarrow> string \<Rightarrow> string) \<Rightarrow> string \<Rightarrow> ManifestTrack list
     \<Rightarrow> load_error + ManifestTrack list" where
  "updateTrackPaths isAbsolute resolve basePath [] = Inr []"
| "updateTrackPaths isAbsolute resolve basePath (track # rest) =
     (case mt_items track of
        None \<Rightarrow> Inl UndefinedProperty
      | Some its \<Rightarrow>
          (case updateItemPaths isAbsolute resolve basePath its of
             Inl e \<Rightarrow> Inl e
           | Inr its' \<Rightarrow>
               (case updateTrackPaths isAbsolute resolve basePath rest of
                  Inl e \<Rightarrow> Inl e
                | Inr rest' \<Rightarrow> Inr (track\<lparr>mt_items := Some its'\<rparr> # rest'))))"

definition updateManifestPaths ::
  "(string \<Rightarrow> bool) \<Rightarrow> (string \<Rightarrow> string \<Rightarrow> string) \<Rightarrow> string \<Rightarrow> Manifest
     \<Rightarrow> load_error + Manifest" where
  "updateManifestPaths isAbsolute resolve basePath manifest =
     (case tracks manifest of
        TracksArray ts \<Rightarrow>
          (case updateTrackPaths isAbsolute resolve basePath ts of
             Inl e \<Rightarrow> Inl e
           | Inr ts' \<Rightarrow> Inr (manifest\<lparr>tracks := TracksArray ts'\<rparr>))
      | _ \<Rightarrow> Inl UndefinedProperty)"

text \<open>
  \<^verbatim>\<open>loadManifest\<close> from the parsed manifest on (reading the file and \<^verbatim>\<open>JSON.parse\<close> are not
  modelled). The log line before the validation reads \<^verbatim>\<open>manifest.tracks.length\<close>, which
  throws when \<open>tracks\<close> is missing.
\<close>

definition loadManifest ::
  "(string \<Rightarrow> bool) \<Rightarrow> (string \<Rightarrow> string \<Rightarrow> string) \<Rightarrow> string \<Rightarrow> Manifest
     \<Rightarrow> load_error + Manifest" where
  "loadManifest isAbsolute resolve basePath manifest =
     (if tracks manifest = TracksMissing then Inl UndefinedProperty
      else (case validateManifest manifest of
              Inl e \<Rightarrow> Inl e
            | Inr u \<Rightarrow> updateManifestPaths isAbsolute resolve basePath manifest))"

text \<open>The conditions under which the two loops of \<^verbatim>\<open>validateManifest\<close> throw.\<close>

definition invalidItem :: "ManifestItem \<Rightarrow> bool" where
  "invalidItem item = (falsyString (mi_id item) \<or> falsyString (mi_file item) \<or> mi_start_ms item = None)"

definition invalidTrack :: "ManifestTrack \<Rightarrow> bool" where
  "invalidTrack track = (falsyString (mt_id track) \<or> falsyString (mt_type track) \<or>
     (case mt_items track of None \<Rightarrow> True | Some its \<Rightarrow> \<exists>item\<in>set its. invalidItem item))"

text \<open>What \<^verbatim>\<open>updateManifestPaths\<close> leaves in a validated manifest.\<close>

definition rewritePaths ::
  "(string \<Rightarrow> bool) \<Rightarrow> (string \<Rightarrow> string \<Rightarrow> string) \<Rightarrow> string \<Rightarrow> ManifestTrack list
     \<Rightarrow> ManifestTrack list" where
  "rewritePaths isAbsolute resolve basePath ts =
     map (\<lambda>track. track\<lparr>mt_items := Some (map (\<lambda>item. if \<not> isAbsolute (the (mi_file item))
                       then item\<lparr>mi_file := Some (resolve basePath (the (mi_file item)))\<rparr>
                       else item) (the (mt_items track)))\<rparr>) ts"


text \<open>A valid manifest whose only item starts at 0, and the same without the item's start.\<close>

definition good_item :: ManifestItem where
  "good_item = \<lparr>mi_id = Some ''v1'', mi_file = Some ''video/a.mp4'', mi_start_ms = Some 0,
     mi_duration_ms = Some 30000, mi_end_ms = None\<rparr>"

definition good_manifest :: Manifest where
  "good_manifest = \<lparr>version = Some ''1.0'', m_duration_ms = Some 120000,
     tracks = TracksArray [\<lparr>mt_id = Some ''video'', mt_type = Some ''video'',
                            mt_items = Some [good_item]\<rparr>]\<rparr>"

definition bad_manifest :: Manifest where
  "bad_manifest = \<lparr>version = Some ''1.0'', m_duration_ms = Some 120000,
     tracks = TracksArray [\<lparr>mt_id = Some ''video'', mt_type = Some ''video'',
                            mt_items = Some [good_item\<lparr>mi_start_ms := None\<rparr>]\<rparr>]\<rparr>"

text \<open>A path library for the examples: nothing is absolute, resolving joins with a slash.\<close>

definition neverAbsolute :: "string \<Rightarrow> bool" where
  "neverAbsolute f = False"

definition joinPath :: "string \<Rightarrow> string \<Rightarrow> string" where
  "joinPath basePath f = basePath @ ''/'' @ f"

section \<open>Properties of the timeline index\<close>

declare findItemAtTime_loop.simps [simp del]

lemma ordered_from_adjacent:
  assumes s: "sorted (map start_ms items)"
    and a: "\<forall>i. Suc i < length items \<longrightarrow> effectiveEnd (items ! i) \<le> start_ms (items ! Suc i)"
  shows "ordered items"
  unfolding ordered_def
proof (intro allI impI)
  fix i j assume ij: "i < j \<and> j < length items"
  have mono: "\<And>p q. p \<le> q \<Longrightarrow> q < length items \<Longrightarrow> start_ms (items ! p) \<le> start_ms (items ! q)"
    using s by (simp add: sorted_iff_nth_mono)
  have "effectiveEnd (items ! i) \<le> start_ms (items ! Suc i)" using a ij by simp
  also have "\<dots> \<le> start_ms (items ! j)" using mono[of "Suc i" j] ij by simp
  finally show "start_ms (items ! i) \<le> start_ms (items ! j) \<and> effectiveEnd (items ! i) \<le> start_ms (items ! j)"
    using mono[of i j] ij by simp
qed

lemma loop_sound:
  "0 \<le> left \<Longrightarrow> right < int (length items) \<Longrightarrow>
   \<exists>r. findItemAtTime_loop items t left right = Inr r \<and>
     (\<forall>x. r = Some x \<longrightarrow> (\<exists>m<length items. x = items ! m \<and>
        (inRange x t \<or> (m = length items - 1 \<and> t = effectiveEnd x))))"
proof (induction items t left right rule: findItemAtTime_loop.induct)
  case (1 items t left right)
  show ?case
  proof (cases "left \<le> right")
    case False
    then show ?thesis by (subst findItemAtTime_loop.simps) simp
  next
    case True
    define mid where "mid = (left + right) div 2"
    have midr: "left \<le> mid" "mid \<le> right" "0 \<le> mid" "mid < int (length items)"
      using True 1(3,4) by (auto simp: mid_def)
    have nm: "nat mid < length items" using midr by auto
    define item where "item = items ! nat mid"
    have notoor: "\<not> (mid < 0 \<or> int (length items) \<le> mid)" using midr by simp
    have unf: "findItemAtTime_loop items t left right =
        (if start_ms item \<le> t \<and> t < effectiveEnd item then Inr (Some item)
         else if mid = int (length items) - 1 \<and> t = effectiveEnd item then Inr (Some item)
         else if t < start_ms item then findItemAtTime_loop items t left (mid - 1)
         else findItemAtTime_loop items t (mid + 1) right)"
      by (subst findItemAtTime_loop.simps) (simp add: True Let_def mid_def[symmetric] notoor item_def)
    consider (hit) "start_ms item \<le> t \<and> t < effectiveEnd item"
      | (terminal) "\<not> (start_ms item \<le> t \<and> t < effectiveEnd item)" "mid = int (length items) - 1 \<and> t = effectiveEnd item"
      | (goleft) "\<not> (start_ms item \<le> t \<and> t < effectiveEnd item)" "\<not> (mid = int (length items) - 1 \<and> t = effectiveEnd item)" "t < start_ms item"
      | (goright) "\<not> (start_ms item \<le> t \<and> t < effectiveEnd item)" "\<not> (mid = int (length items) - 1 \<and> t = effectiveEnd item)" "\<not> t < start_ms item"
      by blast
    then show ?thesis
    proof cases
      case hit
      moreover have "findItemAtTime_loop items t left right = Inr (Some item)"
        by (simp only: unf if_P[OF hit])
      ultimately show ?thesis using nm by (auto simp: inRange_def item_def)
    next
      case terminal
      have "nat mid = length items - 1" using terminal(2) by auto
      moreover have "findItemAtTime_loop items t left right = Inr (Some item)"
        by (simp only: unf if_not_P[OF terminal(1)] if_P[OF terminal(2)])
      ultimately show ?thesis using nm terminal(2) by (auto simp: item_def)
    next
      case goleft
      have "\<exists>r. findItemAtTime_loop items t left (mid - 1) = Inr r \<and>
        (\<forall>x. r = Some x \<longrightarrow> (\<exists>m<length items. x = items ! m \<and>
        (inRange x t \<or> (m = length items - 1 \<and> t = effectiveEnd x))))"
        using 1(1)[OF True mid_def notoor item_def refl refl] goleft 1(3) midr by (simp add: item_def)
      moreover have "findItemAtTime_loop items t left right = findItemAtTime_loop items t left (mid - 1)"
        by (simp only: unf if_not_P[OF goleft(1)] if_not_P[OF goleft(2)] if_P[OF goleft(3)])
      ultimately show ?thesis by simp
    next
      case goright
      have "\<exists>r. findItemAtTime_loop items t (mid + 1) right = Inr r \<and>
        (\<forall>x. r = Some x \<longrightarrow> (\<exists>m<length items. x = items ! m \<and>
        (inRange x t \<or> (m = length items - 1 \<and> t = effectiveEnd x))))"
        using 1(2)[OF True mid_def notoor item_def refl refl] goright 1(4) midr by (simp add: item_def)
      moreover have "findItemAtTime_loop items t left right = findItemAtTime_loop items t (mid + 1) right"
        by (simp only: unf if_not_P[OF goright(1)] if_not_P[OF goright(2)] if_not_P[OF goright(3)])
      ultimately show ?thesis by simp
    qed
  qed
qed

lemma loop_unfold:
  assumes "left \<le> right" "0 \<le> left" "right < int (length items)"
  shows "findItemAtTime_loop items t left right =
        (if inRange (items ! nat ((left + right) div 2)) t then Inr (Some (items ! nat ((left + right) div 2)))
         else if (left + right) div 2 = int (length items) - 1 \<and> t = effectiveEnd (items ! nat ((left + right) div 2))
           then Inr (Some (items ! nat ((left + right) div 2)))
         else if t < start_ms (items ! nat ((left + right) div 2))
           then findItemAtTime_loop items t left ((left + right) div 2 - 1)
         else findItemAtTime_loop items t ((left + right) div 2 + 1) right)"
proof -
  have "\<not> ((left + right) div 2 < 0 \<or> int (length items) \<le> (left + right) div 2)"
    using assms by auto
  then show ?thesis
    by (subst findItemAtTime_loop.simps) (simp add: assms(1) Let_def inRange_def)
qed

lemma inRange_unique:
  assumes "ordered items" "i < length items" "j < length items"
    "inRange (items ! i) t" "inRange (items ! j) t"
  shows "i = j"
proof (rule ccontr)
  assume "i \<noteq> j"
  then consider "i < j" | "j < i" by linarith
  then show False
  proof cases
    case 1
    then have "effectiveEnd (items ! i) \<le> start_ms (items ! j)"
      using assms(1,3) by (simp add: ordered_def)
    then show False using assms(4,5) by (simp add: inRange_def)
  next
    case 2
    then have "effectiveEnd (items ! j) \<le> start_ms (items ! i)"
      using assms(1,2) by (simp add: ordered_def)
    then show False using assms(4,5) by (simp add: inRange_def)
  qed
qed

lemma loop_finds:
  assumes ord: "ordered items" and k: "k < length items" and hit: "inRange (items ! k) t"
  shows "0 \<le> left \<Longrightarrow> left \<le> int k \<Longrightarrow> int k \<le> right \<Longrightarrow> right < int (length items) \<Longrightarrow>
     findItemAtTime_loop items t left right = Inr (Some (items ! k))"
proof (induction "nat (right - left + 1)" arbitrary: left right rule: less_induct)
  case less
  define mid where "mid = (left + right) div 2"
  have lr: "left \<le> right" using less.prems by simp
  have midr: "left \<le> mid" "mid \<le> right" "0 \<le> mid" "mid < int (length items)"
    using lr less.prems by (auto simp: mid_def)
  have nm: "nat mid < length items" using midr by auto
  note unf = loop_unfold[OF lr less.prems(1) less.prems(4), of t, folded mid_def]
  show ?case
  proof (cases "inRange (items ! nat mid) t")
    case True
    then have "nat mid = k" using inRange_unique[OF ord nm k True hit] by simp
    then show ?thesis using unf True by simp
  next
    case nohit: False
    then have kne: "nat mid \<noteq> k" using hit by auto
    show ?thesis
    proof (cases "t < start_ms (items ! nat mid)")
      case True
      have "k < nat mid"
      proof (rule ccontr)
        assume "\<not> k < nat mid"
        then have "nat mid < k" using kne by simp
        then have "start_ms (items ! nat mid) \<le> start_ms (items ! k)"
          using ord k by (simp add: ordered_def)
        then show False using True hit by (simp add: inRange_def)
      qed
      then have kb: "int k \<le> mid - 1" using midr by linarith
      have notterm: "\<not> (mid = int (length items) - 1 \<and> t = effectiveEnd (items ! nat mid))"
      proof
        assume a: "mid = int (length items) - 1 \<and> t = effectiveEnd (items ! nat mid)"
        then have "right = mid" using midr less.prems by linarith
        then have "left = mid" using midr mid_def by linarith
        then show False using kb less.prems by linarith
      qed
      have "findItemAtTime_loop items t left (mid - 1) = Inr (Some (items ! k))"
        by (rule less.hyps) (use less.prems kb midr in auto)
      then show ?thesis using unf nohit True notterm by simp
    next
      case False
      have "nat mid < k"
      proof (rule ccontr)
        assume "\<not> nat mid < k"
        then have "k < nat mid" using kne by simp
        then have "effectiveEnd (items ! k) \<le> start_ms (items ! nat mid)"
          using ord nm by (simp add: ordered_def)
        then show False using False hit by (simp add: inRange_def)
      qed
      then have kb: "mid + 1 \<le> int k" using midr by linarith
      have notterm: "\<not> (mid = int (length items) - 1 \<and> t = effectiveEnd (items ! nat mid))"
        using kb k by linarith
      have "findItemAtTime_loop items t (mid + 1) right = Inr (Some (items ! k))"
        by (rule less.hyps) (use less.prems kb midr in auto)
      then show ?thesis using unf nohit False notterm by simp
    qed
  qed
qed

lemma loop_terminal:
  assumes ne: "items \<noteq> []" and below: "\<forall>x\<in>set items. start_ms x \<le> t"
    and nohit: "\<forall>x\<in>set items. \<not> inRange x t" and te: "t = effectiveEnd (last items)"
  shows "0 \<le> left \<Longrightarrow> left \<le> int (length items) - 1 \<Longrightarrow>
     findItemAtTime_loop items t left (int (length items) - 1) = Inr (Some (last items))"
proof (induction "nat (int (length items) - left)" arbitrary: left rule: less_induct)
  case less
  define right where "right = int (length items) - 1"
  define mid where "mid = (left + right) div 2"
  have lr: "left \<le> right" using less.prems by (simp add: right_def)
  have rb: "right < int (length items)" by (simp add: right_def)
  have midr: "left \<le> mid" "mid \<le> right" "0 \<le> mid" "mid < int (length items)"
    using lr less.prems rb by (auto simp: mid_def)
  have nm: "nat mid < length items" using midr by auto
  note unf = loop_unfold[OF lr less.prems(1) rb, of t, folded mid_def]
  have nh: "\<not> inRange (items ! nat mid) t" using nohit nm by simp
  have ns: "\<not> t < start_ms (items ! nat mid)" using below nm by (simp add: not_less)
  show ?case
  proof (cases "mid = int (length items) - 1")
    case True
    then have "nat mid = length items - 1" by simp
    then have "items ! nat mid = last items" using ne by (simp add: last_conv_nth)
    then show ?thesis using unf nh True te by (simp add: right_def)
  next
    case False
    have "findItemAtTime_loop items t (mid + 1) (int (length items) - 1) = Inr (Some (last items))"
      by (rule less.hyps) (use False midr right_def less.prems in auto)
    then show ?thesis using unf nh ns False by (simp add: right_def)
  qed
qed


lemmas track3_defs = track3_def item1_def item2_def item3_def

lemmas eval_find = findItemAtTime_def findItemAtTime_loop.simps effectiveEnd_def js_or_def

text \<open>
  Claim C1, as the code has it. The effective end is \<open>effectiveEnd\<close>: \<open>end_ms\<close> when it is
  present and non-zero, else \<open>start_ms\<close> plus the duration, an absent duration counting as 0.
  For every list of items sorted by \<open>start_ms\<close>, whose ranges are well formed
  (\<open>start_ms \<le> effectiveEnd\<close>) and where each item ends no later than the next one starts,
  and for every time \<open>t\<close>, \<open>findItemAtTime\<close> returns without error; it returns the item whose
  half-open range contains \<open>max 0 t\<close> when there is one (so that item is unique); otherwise
  it returns the last item when \<open>max 0 t\<close> equals the last item's effective end, and null
  in every other case. On the three-item track, time 120000 gives the third item.
\<close>

theorem findItemAtTime_index:
  assumes "sorted (map start_ms items)"
    and "\<forall>x\<in>set items. start_ms x \<le> effectiveEnd x"
    and "\<forall>i. Suc i < length items \<longrightarrow> effectiveEnd (items ! i) \<le> start_ms (items ! Suc i)"
  shows "(\<exists>r. findItemAtTime items t = Inr r \<and>
      (\<forall>x\<in>set items. inRange x (max 0 t) \<longrightarrow> r = Some x) \<and>
      ((\<forall>x\<in>set items. \<not> inRange x (max 0 t)) \<longrightarrow>
         r = (if items \<noteq> [] \<and> max 0 t = effectiveEnd (last items)
              then Some (last items) else None))) \<and>
    findItemAtTime track3 120000 = Inr (Some item3)"
proof
  show "findItemAtTime track3 120000 = Inr (Some item3)"
    by (simp add: eval_find track3_defs)
next
  define c where "c = max 0 t"
  have ord: "ordered items" using assms(1,3) by (rule ordered_from_adjacent)
  show "\<exists>r. findItemAtTime items t = Inr r \<and>
      (\<forall>x\<in>set items. inRange x (max 0 t) \<longrightarrow> r = Some x) \<and>
      ((\<forall>x\<in>set items. \<not> inRange x (max 0 t)) \<longrightarrow>
         r = (if items \<noteq> [] \<and> max 0 t = effectiveEnd (last items)
              then Some (last items) else None))"
  proof (cases "items = []")
    case True
    then show ?thesis by (simp add: findItemAtTime_def)
  next
    case ne: False
    define n where "n = length items"
    have npos: "0 < n" using ne by (simp add: n_def)
    have fi: "findItemAtTime items t = findItemAtTime_loop items c 0 (int n - 1)"
      using ne by (simp add: findItemAtTime_def c_def n_def)
    obtain r where r: "findItemAtTime_loop items c 0 (int n - 1) = Inr r"
      and rs: "\<forall>x. r = Some x \<longrightarrow> (\<exists>m<length items. x = items ! m \<and>
        (inRange x c \<or> (m = length items - 1 \<and> c = effectiveEnd x)))"
      using loop_sound[of 0 "int n - 1" items c] by (auto simp: n_def)
    have hitcase: "\<forall>x\<in>set items. inRange x c \<longrightarrow> r = Some x"
    proof (intro ballI impI)
      fix x assume "x \<in> set items" "inRange x c"
      then obtain k where k: "k < length items" "items ! k = x" by (auto simp: in_set_conv_nth)
      have "findItemAtTime_loop items c 0 (int n - 1) = Inr (Some (items ! k))"
        using loop_finds[OF ord k(1), of c 0 "int n - 1"] k \<open>inRange x c\<close> by (simp add: n_def)
      then show "r = Some x" using r k by simp
    qed
    have misscase: "r = (if items \<noteq> [] \<and> c = effectiveEnd (last items) then Some (last items) else None)"
      if nohit: "\<forall>x\<in>set items. \<not> inRange x c"
    proof (cases "c = effectiveEnd (last items)")
      case True
      have lastin: "last items \<in> set items" using ne by simp
      have lastnth: "last items = items ! (n - 1)" using ne by (simp add: last_conv_nth n_def)
      have below: "\<forall>x\<in>set items. start_ms x \<le> c"
      proof
        fix x assume "x \<in> set items"
        then obtain k where k: "k < length items" "items ! k = x" by (auto simp: in_set_conv_nth)
        have mono: "\<And>p q. p \<le> q \<Longrightarrow> q < length items \<Longrightarrow> start_ms (items ! p) \<le> start_ms (items ! q)"
          using assms(1) by (simp add: sorted_iff_nth_mono)
        have "start_ms (items ! k) \<le> start_ms (items ! (n - 1))"
          using mono[of k "n - 1"] k npos by (simp add: n_def)
        also have "\<dots> \<le> effectiveEnd (last items)" using assms(2) lastin lastnth by simp
        finally show "start_ms x \<le> c" using True k by simp
      qed
      have "findItemAtTime_loop items c 0 (int (length items) - 1) = Inr (Some (last items))"
        using loop_terminal[OF ne below nohit True, of 0] npos by (simp add: n_def)
      then show ?thesis using r True ne by (simp add: n_def)
    next
      case False
      have "r = None"
      proof (cases r)
        case (Some x)
        then obtain m where "m < length items" "x = items ! m"
          "inRange x c \<or> (m = length items - 1 \<and> c = effectiveEnd x)" using rs by blast
        then show ?thesis using nohit False ne by (auto simp: last_conv_nth)
      qed simp
      then show ?thesis using False by simp
    qed
    show ?thesis using fi r hitcase misscase by (simp add: c_def)
  qed
qed

theorem findItemAtTime_index_witness:
  "findItemAtTime track3 95000 = Inr (Some item3) \<and> findItemAtTime track3 130000 = Inr None"
proof -
  have h1: "sorted (map start_ms track3)" by (simp add: track3_defs)
  have h2: "\<forall>x\<in>set track3. start_ms x \<le> effectiveEnd x"
    by (simp add: track3_defs effectiveEnd_def js_or_def)
  have h3: "\<forall>i. Suc i < length track3 \<longrightarrow> effectiveEnd (track3 ! i) \<le> start_ms (track3 ! Suc i)"
    by (simp add: track3_defs effectiveEnd_def js_or_def less_Suc_eq nth_Cons')
  have in3: "item3 \<in> set track3" "inRange item3 (max 0 95000)"
    by (simp_all add: track3_defs inRange_def effectiveEnd_def js_or_def)
  have out: "\<forall>x\<in>set track3. \<not> inRange x (max 0 130000)"
    by (simp add: track3_defs inRange_def effectiveEnd_def js_or_def)
  have ne: "max 0 130000 \<noteq> effectiveEnd (last track3)"
    by (simp add: track3_defs effectiveEnd_def js_or_def)
  show ?thesis
    using findItemAtTime_index[OF h1 h2 h3, of 95000] findItemAtTime_index[OF h1 h2 h3, of 130000]
      in3 out ne by auto
qed

text \<open>
  Claim C1 as stated fails on three inputs. An open-ended last item (no \<open>end_ms\<close>, no
  \<open>duration_ms\<close>) is matched at its own start time, where the claim has it never match.
  An \<open>end_ms\<close> of 0 is treated as absent, so the duration decides the range. With ranges
  whose end lies before their start, a time equal to the last item's effective end can be
  missed by the search.
\<close>

theorem findItemAtTime_counterexample:
  "(claimed_findItemAtTime [open_item] 5 = None \<and>
    findItemAtTime [open_item] 5 = Inr (Some open_item)) \<and>
   (claimed_findItemAtTime [zero_end_item] 50 = None \<and>
    findItemAtTime [zero_end_item] 50 = Inr (Some zero_end_item)) \<and>
   (claimed_findItemAtTime [short_item, inverted_item1, inverted_item2] 20 = Some inverted_item2 \<and>
    findItemAtTime [short_item, inverted_item1, inverted_item2] 20 = Inr None)"
  by (simp add: eval_find claimed_findItemAtTime_def claimed_contains_def claimed_effectiveEnd_def
      open_item_def zero_end_item_def short_item_def inverted_item1_def inverted_item2_def)

section \<open>Relative time within an item\<close>

text \<open>
  Claim C5, as the code has it. \<open>calculateItemRelativeTime item t\<close> is 0 for \<open>t\<close> before the
  item's start. When the duration is present and positive it equals
  \<open>(t - start_ms) / 1000\<close> floored at 0 and clamped above by \<open>duration_ms / 1000\<close>, so it
  lies in \<open>[0, duration_ms / 1000]\<close>. When the duration is absent or 0 there is no upper
  clamp: it equals \<open>(t - start_ms) / 1000\<close> floored at 0. It is non-decreasing in \<open>t\<close> from
  the item's start on, and on all times when the duration is absent or not negative. The
  third item of the scenario, at 95000, gives 5 seconds.
\<close>

theorem calculateItemRelativeTime_clamped:
  "(t < start_ms item \<longrightarrow> calculateItemRelativeTime item t = 0) \<and>
   (\<forall>d. duration_ms item = Some d \<and> 0 < d \<longrightarrow>
      calculateItemRelativeTime item t = max 0 (min ((t - start_ms item) / 1000) (d / 1000)) \<and>
      0 \<le> calculateItemRelativeTime item t \<and> calculateItemRelativeTime item t \<le> d / 1000) \<and>
   (\<not> truthy (duration_ms item) \<longrightarrow>
      calculateItemRelativeTime item t = max 0 ((t - start_ms item) / 1000)) \<and>
   (start_ms item \<le> t1 \<and> t1 \<le> t2 \<longrightarrow>
      calculateItemRelativeTime item t1 \<le> calculateItemRelativeTime item t2) \<and>
   ((\<forall>d. duration_ms item = Some d \<longrightarrow> 0 \<le> d) \<and> t1 \<le> t2 \<longrightarrow>
      calculateItemRelativeTime item t1 \<le> calculateItemRelativeTime item t2) \<and>
   calculateItemRelativeTime item3 95000 = 5"
proof (intro conjI allI impI)
  show "calculateItemRelativeTime item3 95000 = 5"
    by (simp add: calculateItemRelativeTime_def item3_def truthy_def)
next
  assume "t < start_ms item"
  then show "calculateItemRelativeTime item t = 0"
    by (simp add: calculateItemRelativeTime_def)
next
  fix d assume d: "duration_ms item = Some d \<and> 0 < d"
  then show "calculateItemRelativeTime item t = max 0 (min ((t - start_ms item) / 1000) (d / 1000))"
    by (auto simp: calculateItemRelativeTime_def truthy_def Let_def max_def min_def)
  from d show "0 \<le> calculateItemRelativeTime item t"
    by (auto simp: calculateItemRelativeTime_def truthy_def Let_def min_def)
  from d show "calculateItemRelativeTime item t \<le> d / 1000"
    by (auto simp: calculateItemRelativeTime_def truthy_def Let_def min_def)
next
  assume "\<not> truthy (duration_ms item)"
  then show "calculateItemRelativeTime item t = max 0 ((t - start_ms item) / 1000)"
    by (auto simp: calculateItemRelativeTime_def Let_def max_def)
next
  assume "start_ms item \<le> t1 \<and> t1 \<le> t2"
  then show "calculateItemRelativeTime item t1 \<le> calculateItemRelativeTime item t2"
    by (auto simp: calculateItemRelativeTime_def Let_def min_def)
next
  assume a: "(\<forall>d. duration_ms item = Some d \<longrightarrow> 0 \<le> d) \<and> t1 \<le> t2"
  show "calculateItemRelativeTime item t1 \<le> calculateItemRelativeTime item t2"
  proof (cases "duration_ms item")
    case None
    then show ?thesis using a
      by (auto simp: calculateItemRelativeTime_def Let_def truthy_def)
  next
    case (Some d)
    then have "0 \<le> d" using a by simp
    then show ?thesis using a Some
      by (auto simp: calculateItemRelativeTime_def Let_def truthy_def min_def)
  qed
qed

theorem calculateItemRelativeTime_clamped_witness:
  "calculateItemRelativeTime item3 125000 = 30 \<and> calculateItemRelativeTime item3 80000 = 0 \<and>
   calculateItemRelativeTime open_item 1005 = 1 \<and>
   calculateItemRelativeTime item3 95000 \<le> calculateItemRelativeTime item3 96000"
proof -
  have d: "duration_ms item3 = Some 30000 \<and> (0::real) < 30000" by (simp add: item3_def)
  have nt: "\<not> truthy (duration_ms open_item)" by (simp add: open_item_def truthy_def)
  have sp: "start_ms item3 \<le> 95000 \<and> (95000::real) \<le> 96000" by (simp add: item3_def)
  have nn: "(\<forall>d. duration_ms item3 = Some d \<longrightarrow> 0 \<le> d)" by (simp add: item3_def)
  have b: "80000 < start_ms item3" by (simp add: item3_def)
  show ?thesis
    using calculateItemRelativeTime_clamped[of 125000 item3 95000 96000] d
      calculateItemRelativeTime_clamped[of 80000 item3 95000 96000] b sp nn
      calculateItemRelativeTime_clamped[of 1005 open_item 95000 96000] nt
    by (simp add: item3_def open_item_def)
qed

text \<open>
  Claim C5 as stated fails for an item whose duration is present and 0: the code treats a
  zero duration as unknown and applies no upper clamp, so the result leaves \<open>[0, 0]\<close>.
\<close>

theorem calculateItemRelativeTime_counterexample:
  "claimed_calculateItemRelativeTime zero_duration_item 1000 = 0 \<and>
   calculateItemRelativeTime zero_duration_item 1000 = 1"
  by (simp add: claimed_calculateItemRelativeTime_def calculateItemRelativeTime_def
      zero_duration_item_def truthy_def)

section \<open>Properties of the master clock\<close>

lemmas clock_ops = newMasterClock_def initialize_def play_def pause_def emit_def clockEvent_def
  startUpdateLoop_def stopUpdateLoop_def startSyncInterval_def stopSyncInterval_def
  updateTimeFromVideo_def setPlaybackRate_def update_def update_rest_def js_or_def Let_def syncTick_def

lemmas seek_ops = seek_def performSeek_start_def performSeek_resume_def performSeek_followup_def
  isDuplicateSeek_def seekCalls_def hasSeek_def registerManager_def

lemmas scenario_defs = clock_loaded_def clock_playing_def clock_video_60000_def
  clock_video_at_end_def clock_118000_def slowManager_def stuckManager_def clock_with_manager_def
  clock_two_managers_def clock_seeking_1000_def clock_seeking_9000_def clock_two_seeking_def
  clock_playing_with_manager_def clock_playing_seeking_1000_def clock_playing_seeking_end_def

subsection \<open>Coordinated seek: timeouts\<close>

lemmas wrapper_ops = seekWithTimeout_def runCallbacks_def settle_def SEEK_TIMEOUT_def Let_def

lemma seekWithTimeout_settles:
  "\<exists>tm st. outcome (seekWithTimeout ret) = Some (tm, st) \<and> tm \<le> SEEK_TIMEOUT"
proof (cases ret)
  case (ReturnsPromise fate)
  then show ?thesis by (cases fate) (auto simp: wrapper_ops)
next
  case ReturnsValue
  then show ?thesis by (simp add: wrapper_ops)
next
  case ThrowsError
  then show ?thesis by (simp add: wrapper_ops)
qed

lemma seekWithTimeout_never:
  "seekWithTimeout (ReturnsPromise NeverSettles) =
     \<lparr>outcome = Some (SEEK_TIMEOUT, Fulfilled), timerActive = False, logged = [TimeoutWarning]\<rparr>"
  by (simp add: wrapper_ops)

text \<open>
  Without a callback that resolves it the wrapper stays pending, and an \<^verbatim>\<open>allSettled\<close> over
  a pending promise never settles: the timer is what bounds the wait.
\<close>

lemma pending_without_timer:
  "outcome (runCallbacks [] \<lparr>outcome = None, timerActive = True, logged = []\<rparr>) = None \<and>
   allSettled [runCallbacks [] \<lparr>outcome = None, timerActive = True, logged = []\<rparr>] = None"
  by (simp add: runCallbacks_def allSettled_def)

lemma fold_max_ge: "(a::real) \<le> fold max xs a"
proof (induction xs arbitrary: a)
  case Nil
  then show ?case by simp
next
  case (Cons y ys)
  have "a \<le> max y a" by simp
  also have "\<dots> \<le> fold max ys (max y a)" by (rule Cons.IH)
  finally show ?case by simp
qed

lemma fold_max_mem: "x \<in> set xs \<Longrightarrow> (x::real) \<le> fold max xs a"
proof (induction xs arbitrary: a)
  case Nil
  then show ?case by simp
next
  case (Cons y ys)
  show ?case
  proof (cases "x = y")
    case True
    have "max y a \<le> fold max ys (max y a)" by (rule fold_max_ge)
    then show ?thesis using True by simp
  next
    case False
    then show ?thesis using Cons by simp
  qed
qed

lemma fold_max_le: "\<forall>x\<in>set xs. x \<le> b \<Longrightarrow> a \<le> b \<Longrightarrow> fold max xs a \<le> (b::real)"
  by (induction xs arbitrary: a) auto

lemma seekPromises_settle:
  "w \<in> set (seekPromises ms c) \<Longrightarrow> \<exists>tm st. outcome w = Some (tm, st) \<and> tm \<le> SEEK_TIMEOUT"
  using seekWithTimeout_settles by (auto simp: seekPromises_def)

lemma fold_max_in: "fold max xs (a::real) = a \<or> fold max xs a \<in> set xs"
proof (induction xs arbitrary: a)
  case Nil
  then show ?case by simp
next
  case (Cons y ys)
  show ?case using Cons.IH[of "max y a"] by (auto simp: max_def split: if_splits)
qed

lemma allSettled_seekPromises:
  "\<exists>tm. allSettled (seekPromises ms c) = Some tm \<and> tm \<le> SEEK_TIMEOUT \<and> 0 \<le> tm \<and>
     (\<forall>w\<in>set (seekPromises ms c). \<exists>t st. outcome w = Some (t, st) \<and> t \<le> tm) \<and>
     (tm = 0 \<or> (\<exists>w\<in>set (seekPromises ms c). \<exists>st. outcome w = Some (tm, st)))"
proof -
  let ?ws = "seekPromises ms c"
  let ?times = "map (\<lambda>w. fst (the (outcome w))) ?ws"
  have all: "\<forall>w\<in>set ?ws. outcome w \<noteq> None"
    using seekPromises_settle by fastforce
  then have eq: "allSettled ?ws = Some (fold max ?times 0)" by (simp add: allSettled_def)
  have ub: "\<forall>x\<in>set ?times. x \<le> SEEK_TIMEOUT"
    using seekPromises_settle by fastforce
  have le: "fold max ?times 0 \<le> SEEK_TIMEOUT"
    by (rule fold_max_le[OF ub]) (simp add: SEEK_TIMEOUT_def)
  have each: "\<forall>w\<in>set ?ws. \<exists>t st. outcome w = Some (t, st) \<and> t \<le> fold max ?times 0"
  proof
    fix w assume w: "w \<in> set ?ws"
    then obtain t st where o: "outcome w = Some (t, st)" using seekPromises_settle by blast
    then have "t \<in> set ?times" using w by force
    then have "t \<le> fold max ?times 0" by (rule fold_max_mem)
    then show "\<exists>t st. outcome w = Some (t, st) \<and> t \<le> fold max ?times 0" using o by blast
  qed
  have latest: "fold max ?times 0 = 0 \<or>
      (\<exists>w\<in>set ?ws. \<exists>st. outcome w = Some (fold max ?times 0, st))"
  proof (cases "fold max ?times 0 = 0")
    case True
    then show ?thesis by simp
  next
    case False
    then have "fold max ?times 0 \<in> set ?times" using fold_max_in[of ?times 0] by blast
    then obtain w where w: "w \<in> set ?ws" "fst (the (outcome w)) = fold max ?times 0" by auto
    then obtain t st where o: "outcome w = Some (t, st)" using seekPromises_settle by blast
    then show ?thesis using w by auto
  qed
  show ?thesis using eq le each latest fold_max_ge[of 0 ?times] by blast
qed

text \<open>The wrapped promise of each kind of manager: when it settles, how, and what is logged.\<close>

lemma seekWithTimeout_cases:
  "seekWithTimeout (ReturnsPromise (FulfilsAfter d)) =
     (if d < SEEK_TIMEOUT
      then \<lparr>outcome = Some (d, Fulfilled), timerActive = False, logged = []\<rparr>
      else \<lparr>outcome = Some (SEEK_TIMEOUT, Fulfilled), timerActive = False, logged = [TimeoutWarning]\<rparr>)"
  "seekWithTimeout (ReturnsPromise (RejectsAfter d)) =
     (if d < SEEK_TIMEOUT
      then \<lparr>outcome = Some (d, Fulfilled), timerActive = False, logged = [SeekFailedError]\<rparr>
      else \<lparr>outcome = Some (SEEK_TIMEOUT, Fulfilled), timerActive = False,
             logged = [TimeoutWarning, SeekFailedError]\<rparr>)"
  "seekWithTimeout (ReturnsPromise NeverSettles) =
     \<lparr>outcome = Some (SEEK_TIMEOUT, Fulfilled), timerActive = False, logged = [TimeoutWarning]\<rparr>"
  "seekWithTimeout ReturnsValue = \<lparr>outcome = Some (0, Fulfilled), timerActive = False, logged = []\<rparr>"
  "seekWithTimeout ThrowsError =
     \<lparr>outcome = Some (0, Rejected), timerActive = False, logged = [TimeoutWarning]\<rparr>"
  by (simp_all add: wrapper_ops)

text \<open>
  While a seek is in flight (\<open>isSeeking\<close> set and its promise stored), no call of the clock
  ends it, starts another fan-out or emits a Seek event, and the position is written only
  by the calls that \<open>leavesPosition\<close> excludes.
\<close>

lemma seek_in_flight:
  "isSeeking s \<Longrightarrow> seekPromise s = Some p \<Longrightarrow> seek dnow now timeMs s = (InFlightPromise p, s)"
  by (simp add: seek_def Let_def)

lemma pause_in_flight:
  "isSeeking (pause s) = isSeeking s \<and> seekPromise (pause s) = seekPromise s \<and>
   managerSeeks (pause s) = managerSeeks s \<and> seekPasses (pause s) = seekPasses s \<and>
   currentTime (pause s) = currentTime s \<and>
   (\<exists>evs. emitted (pause s) = emitted s @ evs \<and> Seek \<notin> ev_type ` set evs)"
  by (simp add: pause_def Let_def emit_def clockEvent_def stopUpdateLoop_def stopSyncInterval_def)

lemma applyCall_in_flight:
  assumes "isSeeking s" "seekPromise s = Some p"
  shows "isSeeking (applyCall call s) \<and> seekPromise (applyCall call s) = Some p \<and>
    managerSeeks (applyCall call s) = managerSeeks s \<and> seekPasses (applyCall call s) = seekPasses s \<and>
    (\<exists>evs. emitted (applyCall call s) = emitted s @ evs \<and> Seek \<notin> ev_type ` set evs) \<and>
    (leavesPosition call s \<longrightarrow> currentTime (applyCall call s) = currentTime s)"
proof (cases call)
  case (CallRegisterManager ref manager)
  then show ?thesis using assms by (simp add: registerManager_def)
next
  case (CallUnregisterManager ref)
  then show ?thesis using assms by (simp add: unregisterManager_def)
next
  case (CallInitialize durationMs)
  then show ?thesis using assms by (simp add: initialize_def stopUpdateLoop_def)
next
  case (CallPlay now h1 h2)
  then show ?thesis using assms
    by (simp add: play_def Let_def emit_def clockEvent_def startUpdateLoop_def startSyncInterval_def)
next
  case CallPause
  then show ?thesis using assms pause_in_flight[of s] by simp
next
  case (CallStop dnow now)
  have "stop dnow now s = pause s"
    using assms pause_in_flight[of s] seek_in_flight[of "pause s" p dnow now 0]
    by (simp add: stop_def)
  then show ?thesis using CallStop assms pause_in_flight[of s] by simp
next
  case (CallSeek dnow now timeMs)
  then show ?thesis using assms seek_in_flight[OF assms, of dnow now timeMs] by simp
next
  case (CallSetPlaybackRate now rate)
  then show ?thesis using assms
    by (simp add: setPlaybackRate_def Let_def emit_def clockEvent_def)
next
  case (CallUpdateTimeFromVideo now timeMs isVideoPlaying)
  then show ?thesis using assms by (simp add: updateTimeFromVideo_def)
next
  case (FrameCallback now h)
  then show ?thesis using assms by (simp add: update_def)
next
  case SyncCallback
  then show ?thesis using assms by (simp add: syncTick_def)
next
  case FollowupTimer
  then show ?thesis using assms by (simp add: performSeek_followup_def)
qed

lemma applyCalls_in_flight:
  assumes "isSeeking s" "seekPromise s = Some p"
  shows "isSeeking (applyCalls calls s) \<and> seekPromise (applyCalls calls s) = Some p \<and>
    managerSeeks (applyCalls calls s) = managerSeeks s \<and> seekPasses (applyCalls calls s) = seekPasses s \<and>
    (\<exists>evs. emitted (applyCalls calls s) = emitted s @ evs \<and> Seek \<notin> ev_type ` set evs) \<and>
    (positionKept calls s \<longrightarrow> currentTime (applyCalls calls s) = currentTime s)"
  using assms
proof (induction calls arbitrary: s)
  case Nil
  then show ?case by (simp add: applyCalls_def)
next
  case (Cons call calls)
  note one = applyCall_in_flight[OF Cons.prems, of call]
  have seeking: "isSeeking (applyCall call s)" "seekPromise (applyCall call s) = Some p"
    using one by blast+
  note rest = Cons.IH[OF seeking]
  obtain evs1 where e1: "emitted (applyCall call s) = emitted s @ evs1" "Seek \<notin> ev_type ` set evs1"
    using one by blast
  obtain evs2 where e2: "emitted (applyCalls calls (applyCall call s)) = emitted (applyCall call s) @ evs2"
    "Seek \<notin> ev_type ` set evs2"
    using rest by blast
  have ev: "\<exists>evs. emitted (applyCalls calls (applyCall call s)) = emitted s @ evs \<and> Seek \<notin> ev_type ` set evs"
    using e1 e2 by (intro exI[of _ "evs1 @ evs2"]) auto
  have pos: "positionKept (call # calls) s \<longrightarrow>
      currentTime (applyCalls calls (applyCall call s)) = currentTime s"
    using one rest by simp
  have unfold: "applyCalls (call # calls) s = applyCalls calls (applyCall call s)"
    by (simp add: applyCalls_def)
  show ?case unfolding unfold using rest one ev pos by simp
qed

lemma seek_started:
  assumes "seek dnow now timeMs s = (NewPromise p, s1)"
  shows "isSeeking s1 \<and> seekPromise s1 = Some p \<and> emitted s1 = emitted s \<and>
    currentTime s1 = max 0 (min timeMs (duration s)) \<and>
    managerSeeks s1 = managerSeeks s @ seekCalls (managers s) (max 0 (min timeMs (duration s)))"
  using assms
  by (auto simp: seek_def performSeek_start_def Let_def split: if_splits option.splits)

text \<open>
  Claim C2. A coordinated seek is a call of \<^verbatim>\<open>seek\<close> that starts a pass; \<open>s1\<close> is the clock
  when \<^verbatim>\<open>seek\<close> returns, \<open>ws\<close> the wrapped promises of the fan-out, and \<open>sa\<close> the clock when
  they have all settled, after any calls of the clock (\<open>calls\<close>) made meanwhile. Times are
  milliseconds since the fan-out. For every clock state, every target, every set of
  registered managers whatever their \<^verbatim>\<open>seek\<close> does, and every such list of calls:
  \<^item> the start calls each manager that has a \<^verbatim>\<open>seek\<close> once, with the clamped target, and emits
    nothing;
  \<^item> each wrapped promise depends on its own manager only: it is fulfilled when the
    manager's promise is fulfilled or rejected before 3000 ms (a rejection is logged as
    that manager's failure), at once when the manager returns no promise, and by its own
    timer at exactly 3000 ms, with the timeout warning logged for that manager, when the
    manager's promise never settles or settles later; when the manager's \<^verbatim>\<open>seek\<close> throws, the
    wrapped promise is rejected at once;
  \<^item> the \<^verbatim>\<open>await\<close> resumes, at the latest settling time of the wrapped promises, which is
    at most 3000 ms;
  \<^item> until then the clock stays seeking and no Seek event is emitted, whatever calls are
    made; on resuming, exactly one event is emitted, the Seek event carrying the position
    the clock then has, and the clock stops seeking. That position is the clamped target
    unless a call in between wrote the position.
\<close>

theorem performSeek_settles:
  assumes "seek dnow now timeMs s = (NewPromise p, s1)"
    and "c = max 0 (min timeMs (duration s))"
    and "ws = seekPromises (managers s) c"
    and "sa = applyCalls calls s1"
  shows "(emitted s1 = emitted s \<and> isSeeking s1 \<and> currentTime s1 = c \<and>
      managerSeeks s1 = managerSeeks s @ map (\<lambda>rm. (fst rm, c)) (filter (\<lambda>rm. hasSeek (snd rm)) (managers s))) \<and>
    ws = map (\<lambda>rm. seekWithTimeout (callSeek (snd rm) c)) (filter (\<lambda>rm. hasSeek (snd rm)) (managers s)) \<and>
    (\<forall>d. seekWithTimeout (ReturnsPromise (FulfilsAfter d)) =
       (if d < SEEK_TIMEOUT
        then \<lparr>outcome = Some (d, Fulfilled), timerActive = False, logged = []\<rparr>
        else \<lparr>outcome = Some (SEEK_TIMEOUT, Fulfilled), timerActive = False, logged = [TimeoutWarning]\<rparr>)) \<and>
    (\<forall>d. seekWithTimeout (ReturnsPromise (RejectsAfter d)) =
       (if d < SEEK_TIMEOUT
        then \<lparr>outcome = Some (d, Fulfilled), timerActive = False, logged = [SeekFailedError]\<rparr>
        else \<lparr>outcome = Some (SEEK_TIMEOUT, Fulfilled), timerActive = False,
               logged = [TimeoutWarning, SeekFailedError]\<rparr>)) \<and>
    seekWithTimeout (ReturnsPromise NeverSettles) =
       \<lparr>outcome = Some (SEEK_TIMEOUT, Fulfilled), timerActive = False, logged = [TimeoutWarning]\<rparr> \<and>
    seekWithTimeout ReturnsValue = \<lparr>outcome = Some (0, Fulfilled), timerActive = False, logged = []\<rparr> \<and>
    seekWithTimeout ThrowsError =
       \<lparr>outcome = Some (0, Rejected), timerActive = False, logged = [TimeoutWarning]\<rparr> \<and>
    SEEK_TIMEOUT = 3000 \<and>
    (\<exists>tm. performSeek_finish ws sa = Some (tm, performSeek_resume sa) \<and> 0 \<le> tm \<and> tm \<le> SEEK_TIMEOUT \<and>
       (\<forall>w\<in>set ws. \<exists>t st. outcome w = Some (t, st) \<and> t \<le> tm) \<and>
       (tm = 0 \<or> (\<exists>w\<in>set ws. \<exists>st. outcome w = Some (tm, st)))) \<and>
    (isSeeking sa \<and> managerSeeks sa = managerSeeks s1 \<and>
       (\<exists>evs. emitted sa = emitted s @ evs \<and> Seek \<notin> ev_type ` set evs)) \<and>
    (emitted (performSeek_resume sa) =
       emitted sa @ [\<lparr>ev_type = Seek, ev_time = currentTime sa,
                      ev_playbackRate = playbackRate sa, ev_isPlaying = isPlaying sa\<rparr>] \<and>
     currentTime (performSeek_resume sa) = currentTime sa \<and> \<not> isSeeking (performSeek_resume sa) \<and>
     seekPromise (performSeek_resume sa) = None) \<and>
    (positionKept calls s1 \<longrightarrow> currentTime sa = c)"
proof -
  note st = seek_started[OF assms(1)]
  have seeking: "isSeeking s1" "seekPromise s1 = Some p" using st by blast+
  note fl = applyCalls_in_flight[OF seeking, of calls, folded assms(4)]
  have start: "emitted s1 = emitted s \<and> isSeeking s1 \<and> currentTime s1 = c \<and>
      managerSeeks s1 = managerSeeks s @ map (\<lambda>rm. (fst rm, c)) (filter (\<lambda>rm. hasSeek (snd rm)) (managers s))"
    using st by (simp add: assms(2) seekCalls_def)
  have wsmap: "ws = map (\<lambda>rm. seekWithTimeout (callSeek (snd rm) c)) (filter (\<lambda>rm. hasSeek (snd rm)) (managers s))"
    by (simp add: assms(3) seekPromises_def)
  obtain tm where tm: "allSettled ws = Some tm" "tm \<le> SEEK_TIMEOUT" "0 \<le> tm"
     "\<forall>w\<in>set ws. \<exists>t st. outcome w = Some (t, st) \<and> t \<le> tm"
     "tm = 0 \<or> (\<exists>w\<in>set ws. \<exists>st. outcome w = Some (tm, st))"
    unfolding assms(3) using allSettled_seekPromises[of "managers s" c] by blast
  have fin: "\<exists>tm. performSeek_finish ws sa = Some (tm, performSeek_resume sa) \<and> 0 \<le> tm \<and> tm \<le> SEEK_TIMEOUT \<and>
       (\<forall>w\<in>set ws. \<exists>t st. outcome w = Some (t, st) \<and> t \<le> tm) \<and>
       (tm = 0 \<or> (\<exists>w\<in>set ws. \<exists>st. outcome w = Some (tm, st)))"
    using tm by (intro exI[of _ tm]) (simp add: performSeek_finish_def)
  have during: "isSeeking sa \<and> managerSeeks sa = managerSeeks s1 \<and>
       (\<exists>evs. emitted sa = emitted s @ evs \<and> Seek \<notin> ev_type ` set evs)"
    using fl st by simp
  have resume: "emitted (performSeek_resume sa) =
       emitted sa @ [\<lparr>ev_type = Seek, ev_time = currentTime sa,
                      ev_playbackRate = playbackRate sa, ev_isPlaying = isPlaying sa\<rparr>] \<and>
     currentTime (performSeek_resume sa) = currentTime sa \<and> \<not> isSeeking (performSeek_resume sa) \<and>
     seekPromise (performSeek_resume sa) = None"
    by (simp add: performSeek_resume_def emit_def clockEvent_def Let_def)
  have pos: "positionKept calls s1 \<longrightarrow> currentTime sa = c"
    using fl st by (simp add: assms(2))
  have t3000: "SEEK_TIMEOUT = 3000" by (simp add: SEEK_TIMEOUT_def)
  show ?thesis
    using start wsmap seekWithTimeout_cases t3000 fin during resume pos by blast
qed

theorem performSeek_settles_witness:
  "map_option fst (performSeek_finish (seekPromises (managers clock_two_managers) 1000)
      (applyCalls [CallSetPlaybackRate 600 2, FrameCallback 700 3] clock_two_seeking)) = Some 3000 \<and>
   map ev_type (emitted (performSeek_resume
      (applyCalls [CallSetPlaybackRate 600 2, FrameCallback 700 3] clock_two_seeking))) = [RateChange, Seek] \<and>
   currentTime (applyCalls [CallSetPlaybackRate 600 2, FrameCallback 700 3] clock_two_seeking) = 1000"
proof -
  define sa where "sa = applyCalls [CallSetPlaybackRate 600 2, FrameCallback 700 3] clock_two_seeking"
  define ws where "ws = seekPromises (managers clock_two_managers) (max 0 (min 1000 (duration clock_two_managers)))"
  have first: "seek 1000000 500 1000 clock_two_managers = (NewPromise 0, clock_two_seeking)"
    by (simp add: scenario_defs seek_ops clock_ops)
  have d: "max 0 (min 1000 (duration clock_two_managers)) = 1000"
    by (simp add: scenario_defs seek_ops clock_ops)
  note th = performSeek_settles[OF first refl ws_def sa_def]
  have kept: "positionKept [CallSetPlaybackRate 600 2, FrameCallback 700 3] clock_two_seeking"
    by (simp add: scenario_defs seek_ops clock_ops)
  obtain tm where tm: "performSeek_finish ws sa = Some (tm, performSeek_resume sa)" "tm \<le> SEEK_TIMEOUT"
    "\<forall>w\<in>set ws. \<exists>t st. outcome w = Some (t, st) \<and> t \<le> tm"
    using th by blast
  have never: "seekWithTimeout (ReturnsPromise NeverSettles) =
       \<lparr>outcome = Some (SEEK_TIMEOUT, Fulfilled), timerActive = False, logged = [TimeoutWarning]\<rparr>"
    using th by blast
  have wsmap: "ws = map (\<lambda>rm. seekWithTimeout (callSeek (snd rm) (max 0 (min 1000 (duration clock_two_managers)))))
      (filter (\<lambda>rm. hasSeek (snd rm)) (managers clock_two_managers))"
    using th by blast
  have "seekWithTimeout (ReturnsPromise NeverSettles) \<in> set ws"
    unfolding wsmap by (simp add: scenario_defs registerManager_def clock_ops hasSeek_def callSeek_def)
  then have "SEEK_TIMEOUT \<le> tm" using tm(3) never by fastforce
  then have t: "tm = 3000" using tm(2) th by simp
  have ev: "emitted (performSeek_resume sa) =
       emitted sa @ [\<lparr>ev_type = Seek, ev_time = currentTime sa,
                      ev_playbackRate = playbackRate sa, ev_isPlaying = isPlaying sa\<rparr>]"
    using th by blast
  have pos: "currentTime sa = max 0 (min 1000 (duration clock_two_managers))"
    using th kept by blast
  have esa: "map ev_type (emitted sa) = [RateChange]"
    by (simp add: sa_def applyCalls_def scenario_defs seek_ops clock_ops)
  show ?thesis
    using tm(1) t ev pos esa unfolding sa_def[symmetric] ws_def d by simp
qed

subsection \<open>Coordinated seek: deduplication and clamping\<close>

lemma seekFields_simps [simp]:
  "seekFields (s\<lparr>currentTime := a\<rparr>) = seekFields s"
  "seekFields (s\<lparr>isPlaying := b\<rparr>) = seekFields s"
  "seekFields (s\<lparr>startTime := c\<rparr>) = seekFields s"
  "seekFields (s\<lparr>lastUpdateTime := d\<rparr>) = seekFields s"
  "seekFields (s\<lparr>animationFrameId := e\<rparr>) = seekFields s"
  "seekFields (s\<lparr>syncInterval := f\<rparr>) = seekFields s"
  "seekFields (s\<lparr>frameCount := g\<rparr>) = seekFields s"
  "seekFields (s\<lparr>lastFpsTime := h\<rparr>) = seekFields s"
  "seekFields (s\<lparr>currentFps := i\<rparr>) = seekFields s"
  "seekFields (s\<lparr>lastVideoUpdateTime := j\<rparr>) = seekFields s"
  "seekFields (s\<lparr>lastJumpTime := k\<rparr>) = seekFields s"
  "seekFields (s\<lparr>emitted := l\<rparr>) = seekFields s"
  "seekFields (s\<lparr>playbackRate := m\<rparr>) = seekFields s"
  "seekFields (s\<lparr>isSeeking := n\<rparr>) = seekFields s"
  by (simp_all add: seekFields_def)

lemma seekFields_if: "seekFields (if c then a else b) = (if c then seekFields a else seekFields b)"
  by simp

lemma seekFields_emit [simp]: "seekFields (emit e s) = seekFields s"
  by (simp add: emit_def)

lemma seekFields_stopUpdateLoop [simp]: "seekFields (stopUpdateLoop s) = seekFields s"
  by (simp add: stopUpdateLoop_def)

lemma seekFields_stopSyncInterval [simp]: "seekFields (stopSyncInterval s) = seekFields s"
  by (simp add: stopSyncInterval_def)

lemma seekFields_pause [simp]: "seekFields (pause s) = seekFields s"
  by (simp add: pause_def Let_def)

lemma seekFields_play [simp]: "seekFields (play now h1 h2 s) = seekFields s"
  by (simp add: play_def Let_def startUpdateLoop_def startSyncInterval_def)

lemma seekFields_setPlaybackRate [simp]: "seekFields (setPlaybackRate now r s) = seekFields s"
  by (simp add: setPlaybackRate_def Let_def)

lemma seekFields_syncTick [simp]: "seekFields (syncTick s) = seekFields s"
  by (simp add: syncTick_def)

lemma seekFields_followup [simp]: "seekFields (performSeek_followup s) = seekFields s"
  by (simp add: performSeek_followup_def)

lemma seekFields_update_rest [simp]: "seekFields (update_rest now h s) = seekFields s"
  by (simp add: update_rest_def Let_def)

lemma seekFields_update [simp]: "seekFields (update now h s) = seekFields s"
  by (simp add: update_def Let_def)

lemma seekFields_video [simp]: "seekFields (updateTimeFromVideo now t p s) = seekFields s"
  by (simp add: updateTimeFromVideo_def Let_def seekFields_if split del: if_split cong: if_cong)

lemma seekFields_resume:
  "seekFields (performSeek_resume s) =
     (lastSeekTime s, lastSeekTimestamp s, duration s, seekPasses s, managerSeeks s, managers s, None)"
  by (simp add: performSeek_resume_def Let_def emit_def seekFields_def)

lemma clockStep_keeps:
  assumes "clockStep s s'"
  shows "lastSeekTime s' = lastSeekTime s \<and> lastSeekTimestamp s' = lastSeekTimestamp s \<and>
    duration s' = duration s \<and> seekPasses s' = seekPasses s \<and> managerSeeks s' = managerSeeks s \<and>
    managers s' = managers s \<and>
    (seekPromise s' = seekPromise s \<or> seekPromise s' = None)"
proof -
  have "seekFields s' = seekFields s \<or>
     seekFields s' = (lastSeekTime s, lastSeekTimestamp s, duration s, seekPasses s,
        managerSeeks s, managers s, None)"
    using assms by cases (simp_all add: seekFields_resume)
  then show ?thesis by (auto simp: seekFields_def)
qed

lemma clockSteps_keep:
  assumes "clockStep\<^sup>*\<^sup>* s s'"
  shows "lastSeekTime s' = lastSeekTime s \<and> lastSeekTimestamp s' = lastSeekTimestamp s \<and>
    duration s' = duration s \<and> seekPasses s' = seekPasses s \<and> managerSeeks s' = managerSeeks s \<and>
    managers s' = managers s \<and>
    (seekPromise s' = seekPromise s \<or> seekPromise s' = None)"
  using assms
proof (induction rule: rtranclp_induct)
  case base
  then show ?case by simp
next
  case (step y z)
  then show ?case using clockStep_keeps[OF step.hyps(2)] by auto
qed

lemma seek_applied_fields:
  assumes "seek dnow now t s = (NewPromise p, s1)"
  shows "lastSeekTime s1 = max 0 (min t (duration s)) \<and> lastSeekTimestamp s1 = dnow \<and>
     seekPromise s1 = Some p \<and> duration s1 = duration s \<and> seekPasses s1 = seekPasses s + 1"
  using assms
  by (auto simp: seek_def performSeek_start_def Let_def split: if_splits option.splits)

lemma seek_passes_le: "seekPasses (snd (seek dnow now t s)) \<le> seekPasses s + 1"
  by (simp add: seek_def performSeek_start_def Let_def)

lemma seek_dropped_same:
  assumes "seek dnow now t s = (r, s1)" "\<forall>p. r \<noteq> NewPromise p"
  shows "s1 = s"
  using assms
  by (auto simp: seek_def Let_def split: if_splits option.splits)

text \<open>
  Claim C3, as the code has it. Take two calls of \<^verbatim>\<open>seek\<close> whose clamped targets differ by
  less than 1 ms, the second arriving less than 200 ms (by \<^verbatim>\<open>Date.now()\<close>) after the first,
  with no other seek and no \<^verbatim>\<open>initialize\<close> in between (\<open>clockStep\<close> covers everything else,
  including the end of the first call's coordination). Together the two calls start at
  most one coordination pass. If the first call started a pass, the second call changes
  nothing (no call to a manager, no event, no new promise) and returns the promise of the
  first call while it is in flight, or a resolved promise once it has finished.
\<close>

theorem seek_deduplicated:
  assumes "seek dnow1 now1 t1 s0 = (r1, s1)"
    and "clockStep\<^sup>*\<^sup>* s1 s1'"
    and "\<bar>max 0 (min t2 (duration s1')) - max 0 (min t1 (duration s0))\<bar> < 1"
    and "dnow2 - dnow1 < 200"
  shows "seekPasses (snd (seek dnow2 now2 t2 s1')) \<le> seekPasses s0 + 1 \<and>
    (\<forall>p. r1 = NewPromise p \<longrightarrow>
       snd (seek dnow2 now2 t2 s1') = s1' \<and>
       (fst (seek dnow2 now2 t2 s1') = InFlightPromise p \<or>
        fst (seek dnow2 now2 t2 s1') = ResolvedPromise))"
proof -
  note keep = clockSteps_keep[OF assms(2)]
  have applied: "snd (seek dnow2 now2 t2 s1') = s1' \<and>
       (fst (seek dnow2 now2 t2 s1') = InFlightPromise p \<or>
        fst (seek dnow2 now2 t2 s1') = ResolvedPromise)" if r1: "r1 = NewPromise p" for p
  proof -
    note f = seek_applied_fields[OF assms(1)[unfolded r1]]
    have dup: "isDuplicateSeek dnow2 (max 0 (min t2 (duration s1'))) s1'"
      using f keep assms(3,4) by (simp add: isDuplicateSeek_def)
    have sp: "seekPromise s1' = Some p \<or> seekPromise s1' = None" using f keep by auto
    show ?thesis using dup sp by (auto simp: seek_def Let_def)
  qed
  have "seekPasses (snd (seek dnow2 now2 t2 s1')) \<le> seekPasses s0 + 1"
  proof (cases "\<exists>p. r1 = NewPromise p")
    case True
    then obtain p where r1: "r1 = NewPromise p" by blast
    have "seekPasses s1' = seekPasses s0 + 1"
      using seek_applied_fields[OF assms(1)[unfolded r1]] keep by simp
    then show ?thesis using applied[OF r1] by simp
  next
    case False
    then have "s1 = s0" using seek_dropped_same[OF assms(1)] by blast
    then have "seekPasses s1' = seekPasses s0" using keep by simp
    then show ?thesis using seek_passes_le[of dnow2 now2 t2 s1'] by simp
  qed
  then show ?thesis using applied by blast
qed

theorem seek_deduplicated_witness:
  "snd (seek 1000050 540 (90004 / 10) (performSeek_resume clock_seeking_9000)) =
     performSeek_resume clock_seeking_9000 \<and>
   seekPasses (snd (seek 1000050 540 (90004 / 10) (performSeek_resume clock_seeking_9000))) \<le> 1"
proof -
  have first: "seek 1000000 500 9000 clock_with_manager = (NewPromise 0, clock_seeking_9000)"
    by (simp add: scenario_defs seek_ops clock_ops)
  have seeking: "isSeeking clock_seeking_9000"
    by (simp add: scenario_defs seek_ops clock_ops)
  have steps: "clockStep\<^sup>*\<^sup>* clock_seeking_9000 (performSeek_resume clock_seeking_9000)"
    using step_resume[OF seeking] by (rule r_into_rtranclp)
  have d: "duration (performSeek_resume clock_seeking_9000) = 120000" "duration clock_with_manager = 120000"
    by (simp_all add: scenario_defs seek_ops clock_ops)
  have near: "\<bar>max 0 (min (90004 / 10) (duration (performSeek_resume clock_seeking_9000))) -
      max 0 (min 9000 (duration clock_with_manager))\<bar> < 1"
    unfolding d by simp
  have soon: "(1000050::real) - 1000000 < 200" by simp
  have p0: "seekPasses clock_with_manager = 0"
    by (simp add: scenario_defs seek_ops clock_ops)
  note th = seek_deduplicated[OF first steps near soon, of 540]
  have same: "snd (seek 1000050 540 (90004 / 10) (performSeek_resume clock_seeking_9000)) =
     performSeek_resume clock_seeking_9000"
    using th by blast
  have "seekPasses (snd (seek 1000050 540 (90004 / 10) (performSeek_resume clock_seeking_9000))) \<le>
     seekPasses clock_with_manager + 1"
    using th by (rule conjunct1)
  then show ?thesis using same p0 by simp
qed

text \<open>
  Claim C3 as stated fails when the first call of the pair was itself dropped. A seek to
  9000 is in flight; \<^verbatim>\<open>seek(5000)\<close> arrives and gets the promise of the seek in flight;
  that seek finishes; \<^verbatim>\<open>seek(5000)\<close> arrives again 50 ms after the first: it is compared with
  the last applied target, 9000, so it starts a pass of its own, calls the manager and
  leads to a second Seek event.
\<close>

theorem seek_deduplicated_counterexample:
  "seek 1000010 510 5000 clock_seeking_9000 = (InFlightPromise 0, clock_seeking_9000) \<and>
   fst (seek 1000060 560 5000 (performSeek_resume clock_seeking_9000)) = NewPromise 1 \<and>
   managerSeeks (performSeek_resume clock_seeking_9000) = [(0, 9000)] \<and>
   managerSeeks (snd (seek 1000060 560 5000 (performSeek_resume clock_seeking_9000))) = [(0, 9000), (0, 5000)] \<and>
   map ev_time (emitted (performSeek_resume (snd (seek 1000060 560 5000 (performSeek_resume clock_seeking_9000))))) = [9000, 5000]"
  by (simp add: scenario_defs seek_ops clock_ops)

text \<open>
  Claim C10, as the code has it. For every argument \<open>t\<close> of \<^verbatim>\<open>seek\<close>, the target is
  \<open>max 0 (min t duration)\<close>, which is never negative and is at most the duration when the
  duration is not negative. When the call is not dropped (it is neither a duplicate of the
  last applied seek nor made while a seek is in flight), it starts a pass: every manager
  is called with the clamped target and the position is the clamped target at once. Take
  any calls of the clock made while the coordination is in flight, none of them an
  \<^verbatim>\<open>initialize\<close> or a \<^verbatim>\<open>setPlaybackRate\<close> with an accepted rate while playing: the position
  is still the clamped target when the coordination finishes, and the only Seek event
  emitted since the call is the one emitted then, which carries the clamped target. When
  the call is dropped the clock is left unchanged.
\<close>

theorem seek_clamps:
  "(\<not> isDuplicateSeek dnow (max 0 (min t (duration s))) s \<and> \<not> (isSeeking s \<and> seekPromise s \<noteq> None) \<and>
    positionKept calls (snd (seek dnow now t s)) \<longrightarrow>
      fst (seek dnow now t s) = NewPromise (seekPasses s) \<and>
      currentTime (snd (seek dnow now t s)) = max 0 (min t (duration s)) \<and>
      isSeeking (snd (seek dnow now t s)) \<and>
      managerSeeks (snd (seek dnow now t s)) =
        managerSeeks s @ seekCalls (managers s) (max 0 (min t (duration s))) \<and>
      currentTime (applyCalls calls (snd (seek dnow now t s))) = max 0 (min t (duration s)) \<and>
      currentTime (performSeek_resume (applyCalls calls (snd (seek dnow now t s)))) =
        max 0 (min t (duration s)) \<and>
      (\<exists>evs. emitted (performSeek_resume (applyCalls calls (snd (seek dnow now t s)))) =
         emitted s @ evs @ [\<lparr>ev_type = Seek, ev_time = max 0 (min t (duration s)),
            ev_playbackRate = playbackRate (applyCalls calls (snd (seek dnow now t s))),
            ev_isPlaying = isPlaying (applyCalls calls (snd (seek dnow now t s)))\<rparr>] \<and>
         Seek \<notin> ev_type ` set evs)) \<and>
   (isDuplicateSeek dnow (max 0 (min t (duration s))) s \<or> (isSeeking s \<and> seekPromise s \<noteq> None) \<longrightarrow>
      snd (seek dnow now t s) = s) \<and>
   0 \<le> max 0 (min t (duration s)) \<and>
   (0 \<le> duration s \<longrightarrow> max 0 (min t (duration s)) \<le> duration s)"
proof (intro conjI impI)
  assume a: "\<not> isDuplicateSeek dnow (max 0 (min t (duration s))) s \<and>
    \<not> (isSeeking s \<and> seekPromise s \<noteq> None) \<and> positionKept calls (snd (seek dnow now t s))"
  define s1 where "s1 = snd (seek dnow now t s)"
  define sa where "sa = applyCalls calls s1"
  have f: "fst (seek dnow now t s) = NewPromise (seekPasses s)"
    using a by (auto simp: seek_def performSeek_start_def Let_def)
  then have sk: "seek dnow now t s = (NewPromise (seekPasses s), s1)"
    by (simp add: s1_def prod_eq_iff)
  note st = seek_started[OF sk]
  have seeking: "isSeeking s1" "seekPromise s1 = Some (seekPasses s)" using st by blast+
  note fl = applyCalls_in_flight[OF seeking, of calls, folded sa_def]
  have kept: "positionKept calls s1" using a by (simp add: s1_def)
  have pos: "currentTime sa = max 0 (min t (duration s))" using fl kept st by simp
  obtain evs where evs: "emitted sa = emitted s @ evs" "Seek \<notin> ev_type ` set evs"
    using fl st by auto
  show "fst (seek dnow now t s) = NewPromise (seekPasses s)" by (rule f)
  show "currentTime (snd (seek dnow now t s)) = max 0 (min t (duration s))"
    using st by (simp add: s1_def)
  show "isSeeking (snd (seek dnow now t s))" using st by (simp add: s1_def)
  show "managerSeeks (snd (seek dnow now t s)) =
        managerSeeks s @ seekCalls (managers s) (max 0 (min t (duration s)))"
    using st by (simp add: s1_def)
  show "currentTime (applyCalls calls (snd (seek dnow now t s))) = max 0 (min t (duration s))"
    using pos by (simp add: sa_def s1_def)
  show "currentTime (performSeek_resume (applyCalls calls (snd (seek dnow now t s)))) =
        max 0 (min t (duration s))"
    using pos by (simp add: sa_def s1_def performSeek_resume_def emit_def Let_def)
  have "emitted (performSeek_resume sa) =
         emitted s @ evs @ [\<lparr>ev_type = Seek, ev_time = max 0 (min t (duration s)),
            ev_playbackRate = playbackRate sa, ev_isPlaying = isPlaying sa\<rparr>]"
    using evs pos by (simp add: performSeek_resume_def emit_def clockEvent_def Let_def)
  then show "\<exists>evs. emitted (performSeek_resume (applyCalls calls (snd (seek dnow now t s)))) =
         emitted s @ evs @ [\<lparr>ev_type = Seek, ev_time = max 0 (min t (duration s)),
            ev_playbackRate = playbackRate (applyCalls calls (snd (seek dnow now t s))),
            ev_isPlaying = isPlaying (applyCalls calls (snd (seek dnow now t s)))\<rparr>] \<and>
         Seek \<notin> ev_type ` set evs"
    using evs(2) unfolding sa_def s1_def by blast
next
  assume "isDuplicateSeek dnow (max 0 (min t (duration s))) s \<or> (isSeeking s \<and> seekPromise s \<noteq> None)"
  then show "snd (seek dnow now t s) = s"
    by (auto simp: seek_def Let_def)
next
  show "0 \<le> max 0 (min t (duration s))" by simp
next
  assume "0 \<le> duration s"
  then show "max 0 (min t (duration s)) \<le> duration s" by simp
qed

theorem seek_clamps_witness:
  "currentTime (performSeek_resume
      (applyCalls [CallPlay 600 1 2, FrameCallback 616 3, CallUpdateTimeFromVideo 620 5000 True]
         (snd (seek 1000000 500 (- 50) clock_with_manager)))) = 0 \<and>
   snd (seek 1000050 550 2000 clock_seeking_1000) = clock_seeking_1000 \<and>
   max 0 (min 130000 (duration clock_with_manager)) \<le> duration clock_with_manager"
proof -
  have d: "duration clock_with_manager = 120000" "duration clock_seeking_1000 = 120000"
    by (simp_all add: scenario_defs seek_ops clock_ops)
  have a: "\<not> isDuplicateSeek 1000000 (max 0 (min (- 50) (duration clock_with_manager))) clock_with_manager \<and>
     \<not> (isSeeking clock_with_manager \<and> seekPromise clock_with_manager \<noteq> None) \<and>
     positionKept [CallPlay 600 1 2, FrameCallback 616 3, CallUpdateTimeFromVideo 620 5000 True]
       (snd (seek 1000000 500 (- 50) clock_with_manager))"
    by (simp add: scenario_defs seek_ops clock_ops)
  have b: "isDuplicateSeek 1000050 (max 0 (min 2000 (duration clock_seeking_1000))) clock_seeking_1000 \<or>
     (isSeeking clock_seeking_1000 \<and> seekPromise clock_seeking_1000 \<noteq> None)"
    by (simp add: scenario_defs seek_ops clock_ops)
  have c: "0 \<le> duration clock_with_manager" by (simp add: d)
  have t1: "currentTime (performSeek_resume
      (applyCalls [CallPlay 600 1 2, FrameCallback 616 3, CallUpdateTimeFromVideo 620 5000 True]
         (snd (seek 1000000 500 (- 50) clock_with_manager)))) =
      max 0 (min (- 50) (duration clock_with_manager))"
    using seek_clamps[where dnow = 1000000 and t = "- 50" and s = clock_with_manager and now = 500
        and calls = "[CallPlay 600 1 2, FrameCallback 616 3, CallUpdateTimeFromVideo 620 5000 True]"] a
    by blast
  have t2: "snd (seek 1000050 550 2000 clock_seeking_1000) = clock_seeking_1000"
    using seek_clamps[where dnow = 1000050 and t = 2000 and s = clock_seeking_1000 and now = 550] b
    by blast
  have t3: "max 0 (min 130000 (duration clock_with_manager)) \<le> duration clock_with_manager"
    using seek_clamps[where dnow = 1000000 and t = 130000 and s = clock_with_manager and now = 500] c
    by blast
  show ?thesis using t1 t2 t3 by (simp add: d)
qed

text \<open>
  Claim C10 as stated fails for a call made while another seek is in flight: with a seek
  to 1000 in flight, \<^verbatim>\<open>seek(2000)\<close> returns the promise in flight, and when that
  coordination has finished the position is 1000, not the clamped 2000, and the only Seek
  event carries 1000. The bound by the duration fails for a clock initialised with a
  negative duration. It also fails for a call that is applied, when the position is
  written while the coordination is in flight: on a clock playing since 1000, after
  \<^verbatim>\<open>seek(1000)\<close> at 1500 a \<^verbatim>\<open>setPlaybackRate(2)\<close> at 1600 moves the position to 1100 and the
  Seek event carries 1100; after a seek to the end, 120000, it moves the position to
  120100, beyond the duration; and an \<^verbatim>\<open>initialize\<close> puts it back to 0.
\<close>

theorem seek_clamps_counterexample:
  "seek 1000050 550 2000 clock_seeking_1000 = (InFlightPromise 0, clock_seeking_1000) \<and>
   max 0 (min 2000 (duration clock_seeking_1000)) = 2000 \<and>
   currentTime (performSeek_resume clock_seeking_1000) = 1000 \<and>
   map ev_time (emitted (performSeek_resume clock_seeking_1000)) = [1000] \<and>
   \<not> max 0 (min 5 (duration (initialize (- 10) newMasterClock))) \<le> duration (initialize (- 10) newMasterClock) \<and>
   fst (seek 1000000 1500 1000 clock_playing_with_manager) = NewPromise 0 \<and>
   currentTime (performSeek_resume (setPlaybackRate 1600 2 clock_playing_seeking_1000)) = 1100 \<and>
   map ev_time (emitted (performSeek_resume (setPlaybackRate 1600 2 clock_playing_seeking_1000))) =
     [0, 1100, 1100] \<and>
   currentTime (performSeek_resume (setPlaybackRate 1600 2 clock_playing_seeking_end)) = 120100 \<and>
   duration (performSeek_resume (setPlaybackRate 1600 2 clock_playing_seeking_end)) = 120000 \<and>
   currentTime (performSeek_resume (initialize 120000 clock_playing_seeking_1000)) = 0"
  by (simp add: scenario_defs seek_ops clock_ops)

subsection \<open>Updates from the video\<close>

lemma js_or_Some_self: "js_or (Some j) 0 = j"
  by (simp add: js_or_def)

text \<open>
  Claim C4. \<^verbatim>\<open>updateTimeFromVideo\<close> leaves the clock unchanged, so in particular its
  position: when the time is negative or above the duration plus 1000; when the time is
  exactly 0 while the position is above 1000; and when a jump (more than 1000 ms either
  way, or more than 500 ms backward) arrives less than 1000 ms after the time recorded for
  the last accepted jump. An accepted jump adopts the time and records its own time as
  that of the last accepted jump. In the scenario (position 118000, duration at least
  117500, video sync on, no seek in flight) the update 0 is rejected and the update 118500
  that follows is adopted.
\<close>

theorem updateTimeFromVideo_sanity:
  "(timeMs < 0 \<or> timeMs > duration s + 1000 \<longrightarrow> updateTimeFromVideo now timeMs p s = s) \<and>
   (timeMs = 0 \<and> currentTime s > 1000 \<longrightarrow> updateTimeFromVideo now timeMs p s = s) \<and>
   ((\<bar>currentTime s - timeMs\<bar> > 1000 \<or> timeMs < currentTime s - 500) \<and>
      lastJumpTime s = Some j \<and> now - j < 1000 \<longrightarrow> updateTimeFromVideo now timeMs p s = s) \<and>
   ((\<bar>currentTime s - timeMs\<bar> > 1000 \<or> timeMs < currentTime s - 500) \<and>
      updateTimeFromVideo now timeMs p s \<noteq> s \<longrightarrow>
        currentTime (updateTimeFromVideo now timeMs p s) = timeMs \<and>
        lastJumpTime (updateTimeFromVideo now timeMs p s) = Some now) \<and>
   (currentTime s = 118000 \<and> \<not> isSeeking s \<and> useVideoSync s \<and> 117500 \<le> duration s \<longrightarrow>
      updateTimeFromVideo now 0 p s = s \<and>
      currentTime (updateTimeFromVideo later 118500 q (updateTimeFromVideo now 0 p s)) = 118500)"
proof (intro conjI impI)
  assume "timeMs < 0 \<or> timeMs > duration s + 1000"
  then show "updateTimeFromVideo now timeMs p s = s"
    by (auto simp: updateTimeFromVideo_def Let_def)
next
  assume "timeMs = 0 \<and> currentTime s > 1000"
  then show "updateTimeFromVideo now timeMs p s = s"
    by (simp add: updateTimeFromVideo_def Let_def)
next
  assume "(\<bar>currentTime s - timeMs\<bar> > 1000 \<or> timeMs < currentTime s - 500) \<and>
      lastJumpTime s = Some j \<and> now - j < 1000"
  then show "updateTimeFromVideo now timeMs p s = s"
    by (simp add: updateTimeFromVideo_def Let_def js_or_Some_self)
next
  assume a: "(\<bar>currentTime s - timeMs\<bar> > 1000 \<or> timeMs < currentTime s - 500) \<and>
      updateTimeFromVideo now timeMs p s \<noteq> s"
  define rejected where "rejected = (isSeeking s \<or> \<not> useVideoSync s \<or> timeMs < 0 \<or>
     timeMs > duration s + 1000 \<or> (timeMs = 0 \<and> currentTime s > 1000) \<or>
     now - js_or (lastJumpTime s) 0 < 1000)"
  have "rejected \<Longrightarrow> updateTimeFromVideo now timeMs p s = s"
    using a by (auto simp: rejected_def updateTimeFromVideo_def Let_def)
  then have nr: "\<not> rejected" using a by blast
  have jump: "\<bar>currentTime s - timeMs\<bar> > 1000 \<or> timeMs < currentTime s - 500"
    using a by blast
  show "currentTime (updateTimeFromVideo now timeMs p s) = timeMs"
    using nr jump unfolding rejected_def
    by (auto simp: updateTimeFromVideo_def Let_def emit_def)
  show "lastJumpTime (updateTimeFromVideo now timeMs p s) = Some now"
    using nr jump unfolding rejected_def
    by (auto simp: updateTimeFromVideo_def Let_def emit_def)
next
  assume a: "currentTime s = 118000 \<and> \<not> isSeeking s \<and> useVideoSync s \<and> 117500 \<le> duration s"
  then show z: "updateTimeFromVideo now 0 p s = s"
    by (simp add: updateTimeFromVideo_def Let_def)
  show "currentTime (updateTimeFromVideo later 118500 q (updateTimeFromVideo now 0 p s)) = 118500"
    unfolding z using a
    by (simp add: updateTimeFromVideo_def Let_def emit_def)
qed

theorem updateTimeFromVideo_sanity_witness:
  "updateTimeFromVideo 5000 (- 1) True clock_118000 = clock_118000 \<and>
   updateTimeFromVideo 5000 0 True clock_118000 = clock_118000 \<and>
   updateTimeFromVideo 3400 60000 True clock_118000 = clock_118000 \<and>
   lastJumpTime clock_118000 = Some 3000 \<and>
   currentTime (updateTimeFromVideo 5300 118500 True (updateTimeFromVideo 5000 0 True clock_118000)) = 118500"
proof -
  have f: "currentTime clock_118000 = 118000" "duration clock_118000 = 120000"
    "\<not> isSeeking clock_118000" "useVideoSync clock_118000"
    by (simp_all add: scenario_defs clock_ops)
  have g: "currentTime clock_playing = 0"
    by (simp add: scenario_defs clock_ops)
  have h1: "(- 1::real) < 0 \<or> - 1 > duration clock_118000 + 1000" by simp
  have h2: "(0::real) = 0 \<and> currentTime clock_118000 > 1000" by (simp add: f)
  have h4: "(\<bar>currentTime clock_playing - 118000\<bar> > 1000 \<or> 118000 < currentTime clock_playing - 500) \<and>
      updateTimeFromVideo 3000 118000 True clock_playing \<noteq> clock_playing"
  proof -
    have "currentTime (updateTimeFromVideo 3000 118000 True clock_playing) = 118000"
      using f(1) by (simp add: clock_118000_def)
    then have "updateTimeFromVideo 3000 118000 True clock_playing \<noteq> clock_playing"
      using g by force
    then show ?thesis by (simp add: g)
  qed
  have j: "lastJumpTime clock_118000 = Some 3000"
    using updateTimeFromVideo_sanity[where timeMs = 118000 and s = clock_playing and now = 3000 and p = True] h4
    unfolding clock_118000_def by blast
  have h3: "(\<bar>currentTime clock_118000 - 60000\<bar> > 1000 \<or> 60000 < currentTime clock_118000 - 500) \<and>
      lastJumpTime clock_118000 = Some 3000 \<and> (3400::real) - 3000 < 1000"
    by (simp add: f j)
  have h5: "currentTime clock_118000 = 118000 \<and> \<not> isSeeking clock_118000 \<and>
      useVideoSync clock_118000 \<and> 117500 \<le> duration clock_118000"
    by (simp add: f)
  have t1: "updateTimeFromVideo 5000 (- 1) True clock_118000 = clock_118000"
    using updateTimeFromVideo_sanity[where timeMs = "- 1" and s = clock_118000 and now = 5000 and p = True] h1 by blast
  have t2: "updateTimeFromVideo 5000 0 True clock_118000 = clock_118000"
    using updateTimeFromVideo_sanity[where timeMs = 0 and s = clock_118000 and now = 5000 and p = True] h2 by blast
  have t3: "updateTimeFromVideo 3400 60000 True clock_118000 = clock_118000"
    using updateTimeFromVideo_sanity[where timeMs = 60000 and s = clock_118000 and now = 3400 and p = True and j = 3000] h3 by blast
  have t5: "currentTime (updateTimeFromVideo 5300 118500 True (updateTimeFromVideo 5000 0 True clock_118000)) = 118500"
    using updateTimeFromVideo_sanity[where s = clock_118000 and now = 5000 and p = True and later = 5300 and q = True] h5 by blast
  show ?thesis using t1 t2 t3 j t5 by blast
qed

subsection \<open>Rate change and end of playback\<close>

text \<open>
  What \<^verbatim>\<open>setPlaybackRate\<close> does. For a rate \<open>r\<close> in (0, 4]: while playing it sets the position
  to the extrapolation \<open>(now - startTime) * playbackRate\<close> at the old rate and re-bases
  \<open>startTime\<close> so that the extrapolation at the new rate gives the same value at this
  instant; while paused it leaves both alone; in both cases it sets the rate and emits
  RateChange. When the position was last set by extrapolation less than \<open>tick\<close> ms ago, it
  moves by less than \<open>tick * playbackRate\<close>. For \<open>r \<le> 0\<close> or \<open>r > 4\<close> the state, events
  included, is unchanged.
\<close>

lemma setPlaybackRate_effect:
  "(0 < r \<and> r \<le> 4 \<and> isPlaying s \<longrightarrow>
      setPlaybackRate now r s =
        s\<lparr>currentTime := (now - startTime s) * playbackRate s,
           startTime := now - (now - startTime s) * playbackRate s / r,
           playbackRate := r,
           emitted := emitted s @ [\<lparr>ev_type = RateChange,
              ev_time = (now - startTime s) * playbackRate s,
              ev_playbackRate = r, ev_isPlaying = True\<rparr>]\<rparr> \<and>
      (now - startTime (setPlaybackRate now r s)) * r = currentTime (setPlaybackRate now r s)) \<and>
   (0 < r \<and> r \<le> 4 \<and> \<not> isPlaying s \<longrightarrow>
      setPlaybackRate now r s =
        s\<lparr>playbackRate := r,
           emitted := emitted s @ [\<lparr>ev_type = RateChange, ev_time = currentTime s,
              ev_playbackRate = r, ev_isPlaying = False\<rparr>]\<rparr>) \<and>
   (0 < r \<and> r \<le> 4 \<and> isPlaying s \<and> 0 < playbackRate s \<and>
      currentTime s = (tlast - startTime s) * playbackRate s \<and> tlast \<le> now \<and> now - tlast < tick \<longrightarrow>
      \<bar>currentTime (setPlaybackRate now r s) - currentTime s\<bar> < tick * playbackRate s) \<and>
   (r \<le> 0 \<or> r > 4 \<longrightarrow> setPlaybackRate now r s = s)"
proof (intro conjI impI)
  assume a: "0 < r \<and> r \<le> 4 \<and> isPlaying s"
  then show "setPlaybackRate now r s =
        s\<lparr>currentTime := (now - startTime s) * playbackRate s,
           startTime := now - (now - startTime s) * playbackRate s / r,
           playbackRate := r,
           emitted := emitted s @ [\<lparr>ev_type = RateChange,
              ev_time = (now - startTime s) * playbackRate s,
              ev_playbackRate = r, ev_isPlaying = True\<rparr>]\<rparr>"
    by (simp add: setPlaybackRate_def Let_def emit_def clockEvent_def)
  from a show "(now - startTime (setPlaybackRate now r s)) * r = currentTime (setPlaybackRate now r s)"
    by (simp add: setPlaybackRate_def Let_def emit_def clockEvent_def)
next
  assume "0 < r \<and> r \<le> 4 \<and> \<not> isPlaying s"
  then show "setPlaybackRate now r s =
        s\<lparr>playbackRate := r,
           emitted := emitted s @ [\<lparr>ev_type = RateChange, ev_time = currentTime s,
              ev_playbackRate = r, ev_isPlaying = False\<rparr>]\<rparr>"
    by (simp add: setPlaybackRate_def Let_def emit_def clockEvent_def)
next
  assume a: "0 < r \<and> r \<le> 4 \<and> isPlaying s \<and> 0 < playbackRate s \<and>
      currentTime s = (tlast - startTime s) * playbackRate s \<and> tlast \<le> now \<and> now - tlast < tick"
  then have ct: "currentTime (setPlaybackRate now r s) = (now - startTime s) * playbackRate s"
    by (simp add: setPlaybackRate_def Let_def emit_def clockEvent_def)
  have "currentTime (setPlaybackRate now r s) - currentTime s = (now - tlast) * playbackRate s"
    using a ct by (simp add: algebra_simps)
  moreover have "0 \<le> (now - tlast) * playbackRate s" using a by simp
  moreover have "(now - tlast) * playbackRate s < tick * playbackRate s" using a by simp
  ultimately show "\<bar>currentTime (setPlaybackRate now r s) - currentTime s\<bar> < tick * playbackRate s"
    by simp
next
  assume "r \<le> 0 \<or> r > 4"
  then show "setPlaybackRate now r s = s"
    by (auto simp: setPlaybackRate_def)
qed

text \<open>
  Claim C6: across an accepted \<^verbatim>\<open>setPlaybackRate\<close> the position shown differs by less than
  one tick. The code breaks it when the position was last adopted from the video while
  playing, because that adoption does not re-base \<open>startTime\<close> (as \<^verbatim>\<open>play\<close>,
  \<^verbatim>\<open>performSeek\<close> and the change of playing state in \<^verbatim>\<open>updateTimeFromVideo\<close> do): a new
  clock is initialised with duration 120000 and plays from 0 at time 1000; at time 2000 the
  video reports 60000, which is adopted, while \<open>startTime\<close> stays 1000; \<^verbatim>\<open>setPlaybackRate(2)\<close>
  at time 2016 then replaces the position 60000 by the extrapolation 1016 and emits
  RateChange with it. The move, 58984 ms, exceeds every tick of the clock (the sync
  interval, 500 ms, is the longest).
\<close>

theorem setPlaybackRate_stale_anchor:
  "currentTime clock_video_60000 = 60000 \<and> isPlaying clock_video_60000 \<and>
   startTime clock_video_60000 = 1000 \<and> playbackRate clock_video_60000 = 1 \<and>
   currentTime (setPlaybackRate 2016 2 clock_video_60000) = 1016 \<and>
   map ev_time (emitted (setPlaybackRate 2016 2 clock_video_60000)) = [0, 60000, 1016] \<and>
   map ev_type (emitted (setPlaybackRate 2016 2 clock_video_60000)) = [Play, TimeUpdate, RateChange] \<and>
   \<not> \<bar>currentTime (setPlaybackRate 2016 2 clock_video_60000) - currentTime clock_video_60000\<bar> < 500"
  by (simp add: scenario_defs clock_ops)

text \<open>
  Claim C9, as the code has it. When \<^verbatim>\<open>update\<close> runs while the clock is playing, no seek is
  in flight, the clock advances by itself (video sync is off or the video has not reported
  for more than 500 ms) and the extrapolated position has reached the duration, then the
  position becomes exactly the duration, the clock is paused, the animation frame and the
  sync interval are cleared, and a Pause event and then an Ended event are emitted, both
  with \<open>isPlaying = False\<close>. In every other case \<^verbatim>\<open>update\<close> emits no Ended event and does
  not change \<open>isPlaying\<close>.
\<close>

theorem update_ended:
  "(isPlaying s \<and> \<not> isSeeking s \<and> (\<not> useVideoSync s \<or> now - lastVideoUpdateTime s > 500) \<and>
      (now - startTime s) * playbackRate s \<ge> duration s \<longrightarrow>
      update now h s =
        s\<lparr>currentTime := duration s, isPlaying := False, animationFrameId := None,
           syncInterval := None,
           emitted := emitted s @
             [\<lparr>ev_type = Pause, ev_time = duration s, ev_playbackRate = playbackRate s, ev_isPlaying = False\<rparr>,
              \<lparr>ev_type = Ended, ev_time = duration s, ev_playbackRate = playbackRate s, ev_isPlaying = False\<rparr>]\<rparr>) \<and>
   (\<not> (isPlaying s \<and> \<not> isSeeking s \<and> (\<not> useVideoSync s \<or> now - lastVideoUpdateTime s > 500) \<and>
      (now - startTime s) * playbackRate s \<ge> duration s) \<longrightarrow>
      isPlaying (update now h s) = isPlaying s \<and>
      (\<exists>evs. emitted (update now h s) = emitted s @ evs \<and> Ended \<notin> ev_type ` set evs))"
proof (intro conjI impI)
  assume a: "isPlaying s \<and> \<not> isSeeking s \<and> (\<not> useVideoSync s \<or> now - lastVideoUpdateTime s > 500) \<and>
      (now - startTime s) * playbackRate s \<ge> duration s"
  then have m: "min ((now - startTime s) * playbackRate s) (duration s) = duration s" by simp
  show "update now h s =
        s\<lparr>currentTime := duration s, isPlaying := False, animationFrameId := None,
           syncInterval := None,
           emitted := emitted s @
             [\<lparr>ev_type = Pause, ev_time = duration s, ev_playbackRate = playbackRate s, ev_isPlaying = False\<rparr>,
              \<lparr>ev_type = Ended, ev_time = duration s, ev_playbackRate = playbackRate s, ev_isPlaying = False\<rparr>]\<rparr>"
    using a
    by (cases "animationFrameId s"; cases "syncInterval s")
       (auto simp: update_def Let_def m pause_def emit_def clockEvent_def stopUpdateLoop_def stopSyncInterval_def)
next
  assume n: "\<not> (isPlaying s \<and> \<not> isSeeking s \<and> (\<not> useVideoSync s \<or> now - lastVideoUpdateTime s > 500) \<and>
      (now - startTime s) * playbackRate s \<ge> duration s)"
  then show "isPlaying (update now h s) = isPlaying s"
    by (auto simp: update_def Let_def update_rest_def emit_def min_def)
  from n show "\<exists>evs. emitted (update now h s) = emitted s @ evs \<and> Ended \<notin> ev_type ` set evs"
    by (auto simp: update_def Let_def update_rest_def emit_def clockEvent_def min_def)
qed

theorem update_ended_witness:
  "currentTime (update 121000 7 clock_playing) = 120000 \<and>
   \<not> isPlaying (update 121000 7 clock_playing) \<and>
   animationFrameId (update 121000 7 clock_playing) = None \<and>
   syncInterval (update 121000 7 clock_playing) = None \<and>
   map ev_type (emitted (update 121000 7 clock_playing)) = [Play, Pause, Ended] \<and>
   isPlaying (update 2000 7 clock_playing)"
proof -
  have f: "isPlaying clock_playing" "startTime clock_playing = 1000" "playbackRate clock_playing = 1"
    "duration clock_playing = 120000" "\<not> isSeeking clock_playing"
    "lastVideoUpdateTime clock_playing = 0"
    "map ev_type (emitted clock_playing) = [Play]"
    by (simp_all add: scenario_defs clock_ops)
  have h1: "isPlaying clock_playing \<and> \<not> isSeeking clock_playing \<and>
      (\<not> useVideoSync clock_playing \<or> 121000 - lastVideoUpdateTime clock_playing > 500) \<and>
      (121000 - startTime clock_playing) * playbackRate clock_playing \<ge> duration clock_playing"
    by (simp add: f)
  have h2: "\<not> (isPlaying clock_playing \<and> \<not> isSeeking clock_playing \<and>
      (\<not> useVideoSync clock_playing \<or> 2000 - lastVideoUpdateTime clock_playing > 500) \<and>
      (2000 - startTime clock_playing) * playbackRate clock_playing \<ge> duration clock_playing)"
    by (simp add: f)
  have e1: "update 121000 7 clock_playing =
        clock_playing\<lparr>currentTime := duration clock_playing, isPlaying := False,
           animationFrameId := None, syncInterval := None,
           emitted := emitted clock_playing @
             [\<lparr>ev_type = Pause, ev_time = duration clock_playing,
               ev_playbackRate = playbackRate clock_playing, ev_isPlaying = False\<rparr>,
              \<lparr>ev_type = Ended, ev_time = duration clock_playing,
               ev_playbackRate = playbackRate clock_playing, ev_isPlaying = False\<rparr>]\<rparr>"
    using update_ended[where s = clock_playing and now = 121000 and h = 7] h1 by blast
  have t2: "isPlaying (update 2000 7 clock_playing) = isPlaying clock_playing"
    using update_ended[where s = clock_playing and now = 2000 and h = 7] h2 by blast
  show ?thesis by (subst e1)+ (simp add: f t2)
qed

text \<open>
  Claim C9 as stated fails while the video drives the clock: the clock plays, the video
  reports the position 120000, equal to the duration, and the frame 16 ms later neither
  pauses nor emits Ended.
\<close>

theorem update_ended_counterexample:
  "isPlaying clock_video_at_end \<and> currentTime clock_video_at_end = duration clock_video_at_end \<and>
   isPlaying (update 2016 3 clock_video_at_end) \<and>
   currentTime (update 2016 3 clock_video_at_end) = 120000 \<and>
   duration (update 2016 3 clock_video_at_end) = 120000 \<and>
   map ev_type (emitted (update 2016 3 clock_video_at_end)) = [Play, TimeUpdate, TimeUpdate]"
  by (simp add: scenario_defs clock_ops)

section \<open>Properties of the track managers\<close>

lemma updateSyncMetrics_corrections:
  "corrections (fst (updateSyncMetrics d (m, h))) = corrections m"
  by (simp add: updateSyncMetrics_def Let_def)

lemma correctVideo_below: "\<not> d > VIDEO_SYNC_TOLERANCE \<Longrightarrow> correctVideo dnow d c t sp = sp"
  by (simp add: correctVideo_def)

lemma syncVideoRate_keeps:
  "vp_timeWrites (syncVideoRate rate p) = vp_timeWrites p"
  "vp_currentTime (syncVideoRate rate p) = vp_currentTime p"
  by (simp_all add: syncVideoRate_def)

lemma ensureVideoPlaying_keeps:
  "corrections (vm_syncMetrics (ensureVideoPlaying videoTime vd (s, p))) = corrections (vm_syncMetrics s)"
  "videoTimeWrites (ensureVideoPlaying videoTime vd (s, p)) = vp_timeWrites p"
  "videoNativeTime (ensureVideoPlaying videoTime vd (s, p)) = vp_currentTime p"
  by (simp_all add: ensureVideoPlaying_def videoTimeWrites_def videoNativeTime_def)

lemma correctAudio_below: "\<not> d > AUDIO_SYNC_TOLERANCE \<Longrightarrow> correctAudio dnow d c sa = sa"
  by (simp add: correctAudio_def)

lemma syncAudioRate_keeps:
  "corrections (am_syncMetrics (fst (syncAudioRate rate (s, a)))) = corrections (am_syncMetrics s)"
  "ae_timeWrites (snd (syncAudioRate rate (s, a))) = ae_timeWrites a"
  "ae_currentTime (snd (syncAudioRate rate (s, a))) = ae_currentTime a"
  by (simp_all add: syncAudioRate_def audioSetPlaybackRate_def Let_def)

lemma ensureAudioPlaying_keeps:
  "corrections (am_syncMetrics (ensureAudioPlaying dnow audioTime ad sa)) = corrections (am_syncMetrics (fst sa))"
  "audioTimeWrites (ensureAudioPlaying dnow audioTime ad sa) = ae_timeWrites (snd sa)"
  "audioNativeTime (ensureAudioPlaying dnow audioTime ad sa) = Some (ae_currentTime (snd sa))"
  by (simp_all add: ensureAudioPlaying_def audioTimeWrites_def audioNativeTime_def)

lemma pauseIfPlaying_keeps:
  "ae_timeWrites (pauseIfPlaying a) = ae_timeWrites a"
  "ae_currentTime (pauseIfPlaying a) = ae_currentTime a"
  by (simp_all add: pauseIfPlaying_def)

text \<open>
  Claim C8. In a sync pass of the video manager on a player whose drift,
  \<open>|native position - expected position| * 1000\<close>, is below 200, and in a sync pass of the
  audio manager on an element whose drift is below 100, the corrections counter keeps its
  value, nothing is written to the native current time, and the native current time is
  what it was.
\<close>

theorem sync_below_tolerance:
  "(\<forall>p. player s = Some p \<and> videoDrift item masterTime p < VIDEO_SYNC_TOLERANCE \<longrightarrow>
      corrections (vm_syncMetrics (syncCurrentVideo dnow masterTime rate item s)) =
        corrections (vm_syncMetrics s) \<and>
      videoTimeWrites (syncCurrentVideo dnow masterTime rate item s) = videoTimeWrites s \<and>
      videoNativeTime (syncCurrentVideo dnow masterTime rate item s) = videoNativeTime s) \<and>
   (\<forall>a. audioElement t = Some a \<and> audioDrift item masterTime a < AUDIO_SYNC_TOLERANCE \<longrightarrow>
      corrections (am_syncMetrics (syncCurrentAudio dnow masterTime rate item t)) =
        corrections (am_syncMetrics t) \<and>
      audioTimeWrites (syncCurrentAudio dnow masterTime rate item t) = audioTimeWrites t \<and>
      audioNativeTime (syncCurrentAudio dnow masterTime rate item t) = audioNativeTime t)"
proof (intro conjI allI impI)
  fix p assume a: "player s = Some p \<and> videoDrift item masterTime p < VIDEO_SYNC_TOLERANCE"
  then have nd: "\<not> \<bar>(case vp_currentTime p of None \<Rightarrow> 0 | Some x \<Rightarrow> x) -
      calculateItemRelativeTime item masterTime\<bar> * 1000 > VIDEO_SYNC_TOLERANCE"
    by (simp add: videoDrift_def)
  note simps = syncCurrentVideo_def Let_def correctVideo_below[OF nd] ensureVideoPlaying_keeps
    syncVideoRate_keeps updateSyncMetrics_corrections
  show "corrections (vm_syncMetrics (syncCurrentVideo dnow masterTime rate item s)) =
        corrections (vm_syncMetrics s)"
    using a by (simp add: simps)
  show "videoTimeWrites (syncCurrentVideo dnow masterTime rate item s) = videoTimeWrites s"
    using a by (simp add: simps) (simp add: videoTimeWrites_def)
  show "videoNativeTime (syncCurrentVideo dnow masterTime rate item s) = videoNativeTime s"
    using a by (simp add: simps) (simp add: videoNativeTime_def)
next
  fix a assume a: "audioElement t = Some a \<and> audioDrift item masterTime a < AUDIO_SYNC_TOLERANCE"
  then have nd: "\<not> \<bar>ae_currentTime a - calculateItemRelativeTime item masterTime\<bar> * 1000 > AUDIO_SYNC_TOLERANCE"
    by (simp add: audioDrift_def)
  note simps = syncCurrentAudio_def Let_def correctAudio_below[OF nd] ensureAudioPlaying_keeps
    syncAudioRate_keeps updateSyncMetrics_corrections pauseIfPlaying_keeps
  show "corrections (am_syncMetrics (syncCurrentAudio dnow masterTime rate item t)) =
        corrections (am_syncMetrics t)"
    using a by (simp add: simps)
  show "audioTimeWrites (syncCurrentAudio dnow masterTime rate item t) = audioTimeWrites t"
    using a by (simp add: simps) (simp add: audioTimeWrites_def pauseIfPlaying_keeps)
  show "audioNativeTime (syncCurrentAudio dnow masterTime rate item t) = audioNativeTime t"
    using a by (simp add: simps) (simp add: audioNativeTime_def pauseIfPlaying_keeps)
qed


theorem sync_below_tolerance_witness:
  "corrections (vm_syncMetrics (syncCurrentVideo 10000 95000 1 item3 video_tracking)) = 0 \<and>
   videoTimeWrites (syncCurrentVideo 10000 95000 1 item3 video_tracking) = [] \<and>
   corrections (am_syncMetrics (syncCurrentAudio 10000 95000 1 item3 audio_tracking)) = 0 \<and>
   audioTimeWrites (syncCurrentAudio 10000 95000 1 item3 audio_tracking) = []"
proof -
  define p where "p = \<lparr>vp_currentTime = Some (51 / 10), vp_duration = Some 30,
       vp_playbackRate = Some 1, vp_paused = False, vp_timeWrites = [], vp_playCalls = 0\<rparr>"
  define a where "a = \<lparr>ae_currentTime = 505 / 100, ae_duration = Some 30,
       ae_playbackRate = 1, ae_paused = False, ae_readyState = 4, ae_timeWrites = [],
       ae_playCalls = 0\<rparr>"
  have rel: "calculateItemRelativeTime item3 95000 = 5"
    by (simp add: calculateItemRelativeTime_def item3_def truthy_def)
  have hv: "player video_tracking = Some p \<and> videoDrift item3 95000 p < VIDEO_SYNC_TOLERANCE"
    by (simp add: video_tracking_def p_def videoDrift_def rel VIDEO_SYNC_TOLERANCE_def)
  have ha: "audioElement audio_tracking = Some a \<and> audioDrift item3 95000 a < AUDIO_SYNC_TOLERANCE"
    by (simp add: audio_tracking_def a_def audioDrift_def rel AUDIO_SYNC_TOLERANCE_def)
  note th = sync_below_tolerance[where s = video_tracking and t = audio_tracking and item = item3
      and masterTime = 95000 and dnow = 10000 and rate = 1]
  have v: "corrections (vm_syncMetrics (syncCurrentVideo 10000 95000 1 item3 video_tracking)) =
        corrections (vm_syncMetrics video_tracking) \<and>
      videoTimeWrites (syncCurrentVideo 10000 95000 1 item3 video_tracking) = videoTimeWrites video_tracking"
    using th hv by blast
  have au: "corrections (am_syncMetrics (syncCurrentAudio 10000 95000 1 item3 audio_tracking)) =
        corrections (am_syncMetrics audio_tracking) \<and>
      audioTimeWrites (syncCurrentAudio 10000 95000 1 item3 audio_tracking) = audioTimeWrites audio_tracking"
    using th ha by blast
  show ?thesis using v au
    by (simp add: video_tracking_def audio_tracking_def videoTimeWrites_def audioTimeWrites_def)
qed

text \<open>
  The corrections that the claim excludes do happen above the tolerances: with a native
  position of 9 s against an expected 5 s, both managers write the expected position and
  count one correction.
\<close>

lemma sync_above_tolerance_corrects:
  "corrections (vm_syncMetrics (syncCurrentVideo 10000 95000 1 item3 video_drifted)) = 1 \<and>
   videoTimeWrites (syncCurrentVideo 10000 95000 1 item3 video_drifted) = [5] \<and>
   corrections (am_syncMetrics (syncCurrentAudio 10000 95000 1 item3 audio_drifted)) = 1 \<and>
   audioTimeWrites (syncCurrentAudio 10000 95000 1 item3 audio_drifted) = [5]"
proof -
  have rel: "calculateItemRelativeTime item3 95000 = 5"
    by (simp add: calculateItemRelativeTime_def item3_def truthy_def)
  have d: "truthy (duration_ms item3)" "the (duration_ms item3) = 30000"
    by (simp_all add: item3_def truthy_def)
  show ?thesis
    by (simp add: syncCurrentVideo_def syncCurrentAudio_def video_drifted_def audio_drifted_def
        video_tracking_def audio_tracking_def rel d videoDuration_def audioDuration_def
        correctVideo_def syncVideoRate_def ensureVideoPlaying_def correctAudio_def syncAudioRate_def
        ensureAudioPlaying_def
        updateSyncMetrics_def MAX_DRIFT_HISTORY_def VIDEO_SYNC_TOLERANCE_def AUDIO_SYNC_TOLERANCE_def
        js_or_def truthy_def videoTimeWrites_def audioTimeWrites_def Let_def)
qed

section \<open>Properties of manifest loading\<close>

lemma validateItems_iff:
  "(\<exists>e. validateItems tid its = Inl e) \<longleftrightarrow> (\<exists>item\<in>set its. invalidItem item)"
  by (induction its) (auto simp: invalidItem_def)

lemma validateItems_cases: "(\<exists>e. validateItems tid its = Inl e) \<or> validateItems tid its = Inr ()"
  by (cases "validateItems tid its") auto

lemma validateTracks_iff:
  "(\<exists>e. validateTracks ts = Inl e) \<longleftrightarrow> (\<exists>track\<in>set ts. invalidTrack track)"
proof (induction ts)
  case Nil
  then show ?case by simp
next
  case (Cons t ts)
  show ?case
  proof (cases "falsyString (mt_id t) \<or> falsyString (mt_type t) \<or> mt_items t = None")
    case True
    then show ?thesis by (auto simp: invalidTrack_def)
  next
    case False
    then obtain its where its: "mt_items t = Some its" by auto
    show ?thesis
    proof (cases "\<exists>item\<in>set its. invalidItem item")
      case True
      then obtain e where "validateItems (mt_id t) its = Inl e"
        using validateItems_iff by blast
      then show ?thesis using False its True by (auto simp: invalidTrack_def)
    next
      case nobad: False
      then have "validateItems (mt_id t) its = Inr ()"
        using validateItems_iff validateItems_cases by blast
      then show ?thesis using False its nobad Cons.IH by (auto simp: invalidTrack_def)
    qed
  qed
qed

lemma updateItemPaths_ok:
  "\<forall>item\<in>set its. \<not> invalidItem item \<Longrightarrow>
   updateItemPaths isAbsolute resolve basePath its =
     Inr (map (\<lambda>item. if \<not> isAbsolute (the (mi_file item))
                       then item\<lparr>mi_file := Some (resolve basePath (the (mi_file item)))\<rparr>
                       else item) its)"
  by (induction its) (auto simp: invalidItem_def falsyString_def split: option.splits)

lemma updateTrackPaths_ok:
  "\<forall>track\<in>set ts. \<not> invalidTrack track \<Longrightarrow>
   updateTrackPaths isAbsolute resolve basePath ts =
     Inr (map (\<lambda>track. track\<lparr>mt_items := Some (map (\<lambda>item. if \<not> isAbsolute (the (mi_file item))
                       then item\<lparr>mi_file := Some (resolve basePath (the (mi_file item)))\<rparr>
                       else item) (the (mt_items track)))\<rparr>) ts)"
proof (induction ts)
  case Nil
  then show ?case by simp
next
  case (Cons t ts)
  then obtain its where its: "mt_items t = Some its" "\<forall>item\<in>set its. \<not> invalidItem item"
    by (auto simp: invalidTrack_def split: option.splits)
  show ?case using Cons its updateItemPaths_ok[OF its(2), of isAbsolute resolve basePath] by simp
qed

text \<open>
  Claim C7. A value is missing when it is absent or, for a string, empty. On a parsed
  manifest, \<^verbatim>\<open>validateManifest\<close> throws exactly when the version is missing, the duration is
  absent or not positive, \<open>tracks\<close> is not an array, a track has its id or type missing or
  has no items, or an item has its id or file missing or has no \<open>start_ms\<close> (an item
  whose \<open>start_ms\<close> is 0 passes). \<^verbatim>\<open>loadManifest\<close> throws exactly when \<^verbatim>\<open>validateManifest\<close>
  does, and then returns no manifest and rewrites no path; otherwise it returns the
  manifest with the relative item paths resolved against the base path.
\<close>

theorem validateManifest_fatal:
  "((\<exists>e. validateManifest m = Inl e) \<longleftrightarrow>
      (version m = None \<or> version m = Some [] \<or>
       m_duration_ms m = None \<or> (\<exists>d. m_duration_ms m = Some d \<and> d \<le> 0) \<or>
       (\<forall>ts. tracks m \<noteq> TracksArray ts) \<or>
       (\<exists>ts. tracks m = TracksArray ts \<and> (\<exists>track\<in>set ts.
          mt_id track = None \<or> mt_id track = Some [] \<or>
          mt_type track = None \<or> mt_type track = Some [] \<or> mt_items track = None \<or>
          (\<exists>its. mt_items track = Some its \<and> (\<exists>item\<in>set its.
             mi_id item = None \<or> mi_id item = Some [] \<or>
             mi_file item = None \<or> mi_file item = Some [] \<or> mi_start_ms item = None)))))) \<and>
   ((\<exists>e. loadManifest isAbsolute resolve basePath m = Inl e) \<longleftrightarrow> (\<exists>e. validateManifest m = Inl e)) \<and>
   ((\<forall>e. validateManifest m \<noteq> Inl e) \<longrightarrow>
      (\<exists>ts. tracks m = TracksArray ts \<and>
         loadManifest isAbsolute resolve basePath m =
           Inr (m\<lparr>tracks := TracksArray (rewritePaths isAbsolute resolve basePath ts)\<rparr>)))"
proof -
  have fs: "\<And>v. falsyString v \<longleftrightarrow> v = None \<or> v = Some []"
    by (auto simp: falsyString_def split: option.splits)
  have it: "\<And>track. invalidTrack track \<longleftrightarrow>
          (mt_id track = None \<or> mt_id track = Some [] \<or>
          mt_type track = None \<or> mt_type track = Some [] \<or> mt_items track = None \<or>
          (\<exists>its. mt_items track = Some its \<and> (\<exists>item\<in>set its.
             mi_id item = None \<or> mi_id item = Some [] \<or>
             mi_file item = None \<or> mi_file item = Some [] \<or> mi_start_ms item = None)))"
    by (auto simp: invalidTrack_def invalidItem_def fs split: option.splits)
  have dur: "(\<not> truthy (m_duration_ms m) \<or> the (m_duration_ms m) \<le> 0) \<longleftrightarrow>
      (m_duration_ms m = None \<or> (\<exists>d. m_duration_ms m = Some d \<and> d \<le> 0))"
    by (auto simp: truthy_def split: option.splits)
  have v: "(\<exists>e. validateManifest m = Inl e) \<longleftrightarrow>
      (falsyString (version m) \<or> (\<not> truthy (m_duration_ms m) \<or> the (m_duration_ms m) \<le> 0) \<or>
       (\<forall>ts. tracks m \<noteq> TracksArray ts) \<or>
       (\<exists>ts. tracks m = TracksArray ts \<and> (\<exists>track\<in>set ts. invalidTrack track)))"
    using validateTracks_iff by (cases "tracks m") (auto simp: validateManifest_def)
  have first: "(\<exists>e. validateManifest m = Inl e) \<longleftrightarrow>
      (version m = None \<or> version m = Some [] \<or>
       m_duration_ms m = None \<or> (\<exists>d. m_duration_ms m = Some d \<and> d \<le> 0) \<or>
       (\<forall>ts. tracks m \<noteq> TracksArray ts) \<or>
       (\<exists>ts. tracks m = TracksArray ts \<and> (\<exists>track\<in>set ts.
          mt_id track = None \<or> mt_id track = Some [] \<or>
          mt_type track = None \<or> mt_type track = Some [] \<or> mt_items track = None \<or>
          (\<exists>its. mt_items track = Some its \<and> (\<exists>item\<in>set its.
             mi_id item = None \<or> mi_id item = Some [] \<or>
             mi_file item = None \<or> mi_file item = Some [] \<or> mi_start_ms item = None)))))"
    unfolding v dur fs it by blast
  have ok: "\<exists>ts. tracks m = TracksArray ts \<and>
         loadManifest isAbsolute resolve basePath m =
           Inr (m\<lparr>tracks := TracksArray (rewritePaths isAbsolute resolve basePath ts)\<rparr>)"
    if valid: "\<forall>e. validateManifest m \<noteq> Inl e"
  proof -
    from valid v obtain ts where ts: "tracks m = TracksArray ts" "\<forall>track\<in>set ts. \<not> invalidTrack track"
      by blast
    have vr: "validateManifest m = Inr ()" using valid by (cases "validateManifest m") auto
    show ?thesis
      using ts vr updateTrackPaths_ok[OF ts(2), of isAbsolute resolve basePath]
      by (simp add: loadManifest_def updateManifestPaths_def rewritePaths_def)
  qed
  have second: "(\<exists>e. loadManifest isAbsolute resolve basePath m = Inl e) \<longleftrightarrow> (\<exists>e. validateManifest m = Inl e)"
  proof
    assume "\<exists>e. loadManifest isAbsolute resolve basePath m = Inl e"
    then show "\<exists>e. validateManifest m = Inl e" using ok by (metis Inl_Inr_False)
  next
    assume "\<exists>e. validateManifest m = Inl e"
    then show "\<exists>e. loadManifest isAbsolute resolve basePath m = Inl e"
      by (auto simp: loadManifest_def)
  qed
  show ?thesis using first second ok by blast
qed

theorem validateManifest_fatal_witness:
  "loadManifest neverAbsolute joinPath ''/pkg'' good_manifest =
     Inr (good_manifest\<lparr>tracks := TracksArray [\<lparr>mt_id = Some ''video'', mt_type = Some ''video'',
        mt_items = Some [good_item\<lparr>mi_file := Some ''/pkg/video/a.mp4''\<rparr>]\<rparr>]\<rparr>) \<and>
   isl (validateManifest bad_manifest) \<and>
   isl (loadManifest neverAbsolute joinPath ''/pkg'' bad_manifest)"
proof -
  note good = validateManifest_fatal[where m = good_manifest and isAbsolute = neverAbsolute
      and resolve = joinPath and basePath = "''/pkg''"]
  note bad = validateManifest_fatal[where m = bad_manifest and isAbsolute = neverAbsolute
      and resolve = joinPath and basePath = "''/pkg''"]
  have "\<not> (\<exists>e. validateManifest good_manifest = Inl e)"
    by (subst good[THEN conjunct1]) (simp add: good_manifest_def good_item_def)
  then have "\<forall>e. validateManifest good_manifest \<noteq> Inl e" by blast
  then obtain ts where ts: "tracks good_manifest = TracksArray ts"
    "loadManifest neverAbsolute joinPath ''/pkg'' good_manifest =
       Inr (good_manifest\<lparr>tracks := TracksArray (rewritePaths neverAbsolute joinPath ''/pkg'' ts)\<rparr>)"
    using good by blast
  have t1: "loadManifest neverAbsolute joinPath ''/pkg'' good_manifest =
     Inr (good_manifest\<lparr>tracks := TracksArray [\<lparr>mt_id = Some ''video'', mt_type = Some ''video'',
        mt_items = Some [good_item\<lparr>mi_file := Some ''/pkg/video/a.mp4''\<rparr>]\<rparr>]\<rparr>)"
  proof -
    have tsv: "ts = [\<lparr>mt_id = Some ''video'', mt_type = Some ''video'', mt_items = Some [good_item]\<rparr>]"
      using ts(1) by (simp add: good_manifest_def)
    show ?thesis unfolding ts(2) tsv
      by (simp add: good_item_def rewritePaths_def neverAbsolute_def joinPath_def)
  qed
  have "\<exists>e. validateManifest bad_manifest = Inl e"
    by (subst bad[THEN conjunct1]) (simp add: bad_manifest_def good_item_def)
  moreover from this have "\<exists>e. loadManifest neverAbsolute joinPath ''/pkg'' bad_manifest = Inl e"
    using bad by blast
  ultimately show ?thesis using t1 by auto
qed

end
